theory Spec2Isabelle
  imports Main
begin

section \<open>Garbage collection handler (registry/handlers/housekeeping.go)\<close>

subsection \<open>Data\<close>

type_synonym digest = string
type_synonym error = string

text \<open>distribution.Descriptor: the handler only reads the Digest field.\<close>

record Descriptor =
  desc_Digest :: digest
  desc_Size :: int
  desc_MediaType :: string

text \<open>distribution.Manifest, seen through its References() method.\<close>

record Manifest =
  References :: "Descriptor list"

text \<open>type ManifestDel struct { Name string; Digest digest.Digest; Tags []string }\<close>

record ManifestDel =
  md_Name :: string
  md_Digest :: digest
  md_Tags :: "string list"

text \<open>
  The calls the handler makes on its collaborators, in the order it makes them.
  The first three are the reads of the mark phase, the last two are the deletions
  requested from the vacuum. Each carries the repository name it was made for.
\<close>

datatype event =
    TagsLookup string digest
  | TagsAll string
  | ManifestGet string digest
  | VacuumRemoveManifest string digest "string list"
  | VacuumRemoveRepositoryBlob string digest

fun is_deletion :: "event \<Rightarrow> bool" where
  "is_deletion (VacuumRemoveManifest n d ts) = True"
| "is_deletion (VacuumRemoveRepositoryBlob n d) = True"
| "is_deletion _ = False"

text \<open>
  The interfaces of package distribution that the handler calls. Their
  implementations are outside the handler, so each method is a field: what the
  call returns. A Go result (value, error) is a sum, \<open>Inl\<close> the error.
\<close>

record TagService =
  Lookup :: "digest \<Rightarrow> error + string list"
  AllTags :: "error + string list"

text \<open>
  ManifestService. \<open>isEnumerator\<close> is the outcome of the type assertion
  service.(distribution.ManifestEnumerator); \<open>ms_items\<close> are the digests the
  enumerator hands to its callback, \<open>ms_fail\<close> the error with which the
  enumerator itself stops after them, if any.
\<close>

record ManifestService =
  isEnumerator :: bool
  ms_items :: "digest list"
  ms_fail :: "error option"
  Get :: "digest \<Rightarrow> error + Manifest"

text \<open>
  The repository blob enumerator, over a storage state \<open>'st\<close>: the blobs it
  yields are read from the storage as it is when the enumeration starts.
\<close>

record 'st BlobsEnumerator =
  IsScopped :: bool
  be_items :: "'st \<Rightarrow> digest list"
  be_fail :: "'st \<Rightarrow> error option"

record 'st Repository =
  Named :: string
  Tags :: TagService
  Manifests :: "error + ManifestService"
  RepositoryBlobsEnumerator :: "'st BlobsEnumerator option"

text \<open>
  storage.Vacuum: both removals act on the storage and may fail.
\<close>

record 'st Vacuum =
  RemoveManifest :: "string \<Rightarrow> digest \<Rightarrow> string list \<Rightarrow> 'st \<Rightarrow> error option \<times> 'st"
  RemoveRepositoryBlob :: "string \<Rightarrow> digest \<Rightarrow> 'st \<Rightarrow> error option \<times> 'st"

text \<open>
  handlers.Context, as far as the handler reads it. \<open>NewVacuum\<close> stands for
  storage.NewVacuum(bh.Context, bh.driver).
\<close>

record 'st Context =
  readOnly :: bool
  Repository :: "'st Repository"
  NewVacuum :: "'st Vacuum"

subsection \<open>Enumeration\<close>

text \<open>
  Modelled from the spec: the Enumerate method of ManifestEnumerator and of the
  repository blob enumerator is not part of the handler's file. It is a lazy, finite
  sequence handed to a callback one digest at a time; an error returned by the
  callback stops the enumeration and is returned (never swallowed); after the
  last digest the enumerator returns its own error, if it has one.
\<close>

fun Enumerate :: "digest list \<Rightarrow> error option \<Rightarrow> (digest \<Rightarrow> 'a \<Rightarrow> error option \<times> 'a) \<Rightarrow> 'a
    \<Rightarrow> error option \<times> 'a" where
  "Enumerate [] own f a = (own, a)"
| "Enumerate (d # ds) own f a =
    (case f d a of
       (Some err, a') \<Rightarrow> (Some err, a')
     | (None, a') \<Rightarrow> Enumerate ds own f a')"

subsection \<open>Mark phase\<close>

text \<open>The local removeUntagged := true of markAllManifests.\<close>

definition removeUntagged :: bool where
  "removeUntagged = True"

text \<open>for _, descriptor := range descriptors { markSet[descriptor.Digest] = struct{}{} }\<close>

fun markDescriptors :: "Descriptor list \<Rightarrow> digest set \<Rightarrow> digest set" where
  "markDescriptors [] markSet = markSet"
| "markDescriptors (descriptor # descriptors) markSet =
     markDescriptors descriptors (insert (desc_Digest descriptor) markSet)"

text \<open>
  The second half of the callback (lines 77-92): mark the manifest's own digest,
  fetch it, mark every reference. The digest is already in the mark set when
  the fetch fails.
\<close>

definition markManifest :: "'st Repository \<Rightarrow> ManifestService \<Rightarrow> digest
    \<Rightarrow> ManifestDel list \<times> digest set \<times> event list
    \<Rightarrow> error option \<times> ManifestDel list \<times> digest set \<times> event list" where
  "markManifest repo service dgst st =
    (case st of (manifestArr, markSet, tr) \<Rightarrow>
      (case Get service dgst of
         Inl err \<Rightarrow>
           (Some (''failed to retrieve manifest for digest '' @ dgst @ '': '' @ err),
            manifestArr, insert dgst markSet, tr @ [ManifestGet (Named repo) dgst])
       | Inr manifest \<Rightarrow>
           (None, manifestArr, markDescriptors (References manifest) (insert dgst markSet),
            tr @ [ManifestGet (Named repo) dgst])))"

text \<open>The callback handed to manifestEnumerator.Enumerate (lines 54-93).\<close>

definition markCallback :: "'st Repository \<Rightarrow> ManifestService \<Rightarrow> digest
    \<Rightarrow> ManifestDel list \<times> digest set \<times> event list
    \<Rightarrow> error option \<times> ManifestDel list \<times> digest set \<times> event list" where
  "markCallback repo service dgst st =
    (case st of (manifestArr, markSet, tr) \<Rightarrow>
      if removeUntagged then
        (case Lookup (Tags repo) dgst of
           Inl err \<Rightarrow>
             (Some (''failed to retrieve tags for digest '' @ dgst @ '': '' @ err),
              manifestArr, markSet, tr @ [TagsLookup (Named repo) dgst])
         | Inr tags \<Rightarrow>
             if length tags = 0 then
               (case AllTags (Tags repo) of
                  Inl err \<Rightarrow>
                    (Some (''failed to retrieve tags '' @ err), manifestArr, markSet,
                     tr @ [TagsLookup (Named repo) dgst, TagsAll (Named repo)])
                | Inr allTags \<Rightarrow>
                    (None,
                     manifestArr @ [\<lparr>md_Name = Named repo, md_Digest = dgst, md_Tags = allTags\<rparr>],
                     markSet,
                     tr @ [TagsLookup (Named repo) dgst, TagsAll (Named repo)]))
             else markManifest repo service dgst
                    (manifestArr, markSet, tr @ [TagsLookup (Named repo) dgst]))
      else markManifest repo service dgst (manifestArr, markSet, tr))"

definition markAllManifests :: "'st Context \<Rightarrow> ManifestService
    \<Rightarrow> ManifestDel list \<times> digest set \<times> event list
    \<Rightarrow> error option \<times> ManifestDel list \<times> digest set \<times> event list" where
  "markAllManifests bh service st =
    (if \<not> isEnumerator service then
       (Some ''unable to convert ManifestService into ManifestEnumerator'', st)
     else Enumerate (ms_items service) (ms_fail service)
            (markCallback (Repository bh) service) st)"

subsection \<open>Sweep phase and the whole cycle\<close>

text \<open>for _, obj := range manifestArr { err = vacuum.RemoveManifest(...) ... } (lines 115-120)\<close>

fun removeManifests :: "'st Vacuum \<Rightarrow> ManifestDel list \<Rightarrow> 'st \<times> event list
    \<Rightarrow> error option \<times> 'st \<times> event list" where
  "removeManifests vacuum [] st = (None, st)"
| "removeManifests vacuum (obj # objs) st =
    (case st of (s, tr) \<Rightarrow>
      (case RemoveManifest vacuum (md_Name obj) (md_Digest obj) (md_Tags obj) s of
         (Some err, s') \<Rightarrow>
           (Some (''failed to delete manifest '' @ md_Digest obj @ '': '' @ err), s',
            tr @ [VacuumRemoveManifest (md_Name obj) (md_Digest obj) (md_Tags obj)])
       | (None, s') \<Rightarrow>
           removeManifests vacuum objs
             (s', tr @ [VacuumRemoveManifest (md_Name obj) (md_Digest obj) (md_Tags obj)])))"

text \<open>
  The callback of the blob enumeration (lines 124-130): the result of
  vacuum.RemoveRepositoryBlob is dropped and the callback returns nil.
\<close>

definition sweepCallback :: "'st Context \<Rightarrow> digest set \<Rightarrow> digest \<Rightarrow> 'st \<times> event list
    \<Rightarrow> error option \<times> 'st \<times> event list" where
  "sweepCallback bh markSet dgst st =
    (case st of (s, tr) \<Rightarrow>
      if dgst \<notin> markSet then
        (None, snd (RemoveRepositoryBlob (NewVacuum bh) (Named (Repository bh)) dgst s),
         tr @ [VacuumRemoveRepositoryBlob (Named (Repository bh)) dgst])
      else (None, s, tr))"

text \<open>Lines 122-135: the blob sweep, run only on a scoped blob enumerator.\<close>

definition sweepBlobs :: "'st Context \<Rightarrow> 'st BlobsEnumerator option \<Rightarrow> digest set
    \<Rightarrow> 'st \<times> event list \<Rightarrow> error option \<times> 'st \<times> event list" where
  "sweepBlobs bh blobsService markSet st =
    (case blobsService of
       None \<Rightarrow> (None, st)
     | Some b \<Rightarrow>
         if IsScopped b then
           (case Enumerate (be_items b (fst st)) (be_fail b (fst st))
                   (sweepCallback bh markSet) st of
              (Some err, st') \<Rightarrow> (Some (''failed to delete blobs '' @ err), st')
            | (None, st') \<Rightarrow> (None, st'))
         else (None, st))"

text \<open>
  runGCCycle on storage \<open>s\<close>: the error it returns (None is nil), the storage
  afterwards and the calls made.
\<close>

definition runGCCycle :: "'st Context \<Rightarrow> 'st \<Rightarrow> error option \<times> 'st \<times> event list" where
  "runGCCycle bh s =
    (case Manifests (Repository bh) of
       Inl err \<Rightarrow> (Some (''failed to construct manifest service: '' @ err), s, [])
     | Inr manifestService \<Rightarrow>
         (let blobsService = RepositoryBlobsEnumerator (Repository bh) in
          case markAllManifests bh manifestService ([], {}, []) of
            (Some err, manifestArr, markSet, tr) \<Rightarrow>
              (Some (''failed to mark all manifests: '' @ err), s, tr)
          | (None, manifestArr, markSet, tr) \<Rightarrow>
              (case removeManifests (NewVacuum bh) manifestArr (s, tr) of
                 (Some err, st') \<Rightarrow> (Some err, st')
               | (None, st') \<Rightarrow> sweepBlobs bh blobsService markSet st')))"

subsection \<open>The HTTP side of the handler\<close>

text \<open>
  http.ResponseWriter, as the handler uses it: Header().Set, WriteHeader and
  Write. The first WriteHeader fixes the status; a Write before any WriteHeader
  sends status 200 first.
\<close>

record ResponseWriter =
  rw_header :: "string \<rightharpoonup> string"
  rw_status :: "nat option"
  rw_body :: string

definition StatusOK :: nat where
  "StatusOK = 200"

definition StatusInternalServerError :: nat where
  "StatusInternalServerError = 500"

definition Header_Set :: "string \<Rightarrow> string \<Rightarrow> ResponseWriter \<Rightarrow> ResponseWriter" where
  "Header_Set k v w = w\<lparr>rw_header := (rw_header w)(k \<mapsto> v)\<rparr>"

definition WriteHeader :: "nat \<Rightarrow> ResponseWriter \<Rightarrow> ResponseWriter" where
  "WriteHeader code w = (if rw_status w = None then w\<lparr>rw_status := Some code\<rparr> else w)"

definition Write :: "string \<Rightarrow> ResponseWriter \<Rightarrow> ResponseWriter" where
  "Write bytes w =
    (let w' = (if rw_status w = None then WriteHeader StatusOK w else w)
     in w'\<lparr>rw_body := rw_body w' @ bytes\<rparr>)"

text \<open>func (bh *housekeepingHandler) Recycle(w http.ResponseWriter, r *http.Request)\<close>

definition Recycle :: "'st Context \<Rightarrow> ResponseWriter \<Rightarrow> 'st
    \<Rightarrow> ResponseWriter \<times> 'st \<times> event list" where
  "Recycle bh w s =
    (case runGCCycle bh s of
       (Some err, s', tr) \<Rightarrow> (Write err (WriteHeader StatusInternalServerError w), s', tr)
     | (None, s', tr) \<Rightarrow>
         (WriteHeader StatusOK (Header_Set ''Content-Length'' ''0'' w), s', tr))"

text \<open>
  housekeepingDispatcher: a handlers.MethodHandler is a map from the HTTP method
  to the handler registered for it.
\<close>

definition housekeepingDispatcher :: "'st Context
    \<Rightarrow> (string \<rightharpoonup> (ResponseWriter \<Rightarrow> 'st \<Rightarrow> ResponseWriter \<times> 'st \<times> event list))" where
  "housekeepingDispatcher ctx =
    (if \<not> readOnly ctx then Map.empty(''DELETE'' \<mapsto> Recycle ctx) else Map.empty)"

section \<open>Registry construction and scoping (registry/storage/registry.go)\<close>

subsection \<open>Objects and the heap\<close>

text \<open>
  The registry shares one registryOptions, one statter, one blob store and one
  blob server by pointer, and the scoped variants are new objects: the objects
  live in a heap and are named by their address, the index at which they were
  allocated. Drivers, keys, cache providers, factories and regular expressions
  are opaque handles.
\<close>

type_synonym addr = nat
type_synonym StorageDriver = nat
type_synonym PrivateKey = nat
type_synonym CacheProvider = nat
type_synonym ServiceFactory = nat
type_synonym Regexp = string

record registryOptions =
  repositoryBlobStoreEnabled :: bool
  globalBlobStoreEnabled :: bool
  redirect :: bool

record blobStatter =
  st_driver :: StorageDriver
  st_options :: addr
  st_repositoryScope :: string

text \<open>
  The statter field of a blob store or server holds either a *blobStatter or the
  result of cache.NewCachedBlobStatter(provider, backend).
\<close>

datatype statter = Statter addr | CachedBlobStatter CacheProvider addr

record blobStore =
  bs_driver :: StorageDriver
  bs_statter :: statter
  bs_options :: addr
  bs_repositoryScope :: string

text \<open>pathFn is the method value bs.path: the blob store it is bound to.\<close>

record blobServer =
  sv_driver :: StorageDriver
  sv_options :: addr
  sv_statter :: statter
  sv_pathFn :: addr

record heap =
  h_options :: "registryOptions list"
  h_statters :: "blobStatter list"
  h_stores :: "blobStore list"
  h_servers :: "blobServer list"

record registry =
  globalBlobStore :: addr
  globalBlobServer :: addr
  globalStatter :: addr
  globalBlobDescriptorCacheProvider :: "CacheProvider option"
  options :: addr
  deleteEnabled :: bool
  schema1Enabled :: bool
  resumableDigestEnabled :: bool
  schema1SigningKey :: "PrivateKey option"
  blobDescriptorServiceFactory :: "ServiceFactory option"
  manifestURLs_allow :: "Regexp option"
  manifestURLs_deny :: "Regexp option"
  driver :: StorageDriver

text \<open>type RegistryOption func(*registry) error\<close>

type_synonym RegistryOption = "registry \<times> heap \<Rightarrow> error + registry \<times> heap"

subsection \<open>Functional options\<close>

definition update_options :: "(registryOptions \<Rightarrow> registryOptions) \<Rightarrow> registry \<times> heap \<Rightarrow> heap" where
  "update_options f st =
    (case st of (reg, h) \<Rightarrow>
       h\<lparr>h_options := (h_options h)[options reg := f (h_options h ! options reg)]\<rparr>)"

definition EnableRedirect :: RegistryOption where
  "EnableRedirect st = Inr (fst st, update_options (\<lambda>ro. ro\<lparr>redirect := True\<rparr>) st)"

definition EnableDelete :: RegistryOption where
  "EnableDelete st = Inr ((fst st)\<lparr>deleteEnabled := True\<rparr>, snd st)"

definition EnableRepositoryBlobsStorage :: RegistryOption where
  "EnableRepositoryBlobsStorage st =
     Inr (fst st, update_options (\<lambda>ro. ro\<lparr>repositoryBlobStoreEnabled := True\<rparr>) st)"

definition DisableGlobalBlobsStorage :: RegistryOption where
  "DisableGlobalBlobsStorage st =
     Inr (fst st, update_options (\<lambda>ro. ro\<lparr>globalBlobStoreEnabled := False\<rparr>) st)"

definition EnableSchema1 :: RegistryOption where
  "EnableSchema1 st = Inr ((fst st)\<lparr>schema1Enabled := True\<rparr>, snd st)"

definition DisableDigestResumption :: RegistryOption where
  "DisableDigestResumption st = Inr ((fst st)\<lparr>resumableDigestEnabled := False\<rparr>, snd st)"

definition ManifestURLsAllowRegexp :: "Regexp option \<Rightarrow> RegistryOption" where
  "ManifestURLsAllowRegexp r st = Inr ((fst st)\<lparr>manifestURLs_allow := r\<rparr>, snd st)"

definition ManifestURLsDenyRegexp :: "Regexp option \<Rightarrow> RegistryOption" where
  "ManifestURLsDenyRegexp r st = Inr ((fst st)\<lparr>manifestURLs_deny := r\<rparr>, snd st)"

definition Schema1SigningKey :: "PrivateKey option \<Rightarrow> RegistryOption" where
  "Schema1SigningKey key st = Inr ((fst st)\<lparr>schema1SigningKey := key\<rparr>, snd st)"

definition BlobDescriptorServiceFactory :: "ServiceFactory option \<Rightarrow> RegistryOption" where
  "BlobDescriptorServiceFactory factory st =
     Inr ((fst st)\<lparr>blobDescriptorServiceFactory := factory\<rparr>, snd st)"

definition BlobDescriptorCacheProvider :: "CacheProvider option \<Rightarrow> RegistryOption" where
  "BlobDescriptorCacheProvider blobDescriptorCacheProvider st =
    (case st of (reg, h) \<Rightarrow>
      (case blobDescriptorCacheProvider of
         None \<Rightarrow> Inr (reg, h)
       | Some p \<Rightarrow>
           (let statter = CachedBlobStatter p (globalStatter reg);
                gbs = globalBlobStore reg;
                gsv = globalBlobServer reg
            in Inr (reg\<lparr>globalBlobDescriptorCacheProvider := Some p\<rparr>,
                    h\<lparr>h_stores := (h_stores h)[gbs := (h_stores h ! gbs)\<lparr>bs_statter := statter\<rparr>],
                      h_servers := (h_servers h)[gsv := (h_servers h ! gsv)\<lparr>sv_statter := statter\<rparr>]\<rparr>))))"

subsection \<open>NewRegistry\<close>

text \<open>for _, option := range options { if err := option(registry); err != nil { return nil, err } }\<close>

fun applyOptions :: "RegistryOption list \<Rightarrow> registry \<times> heap \<Rightarrow> error + registry \<times> heap" where
  "applyOptions [] st = Inr st"
| "applyOptions (opt # opts) st =
    (case opt st of
       Inl err \<Rightarrow> Inl err
     | Inr st' \<Rightarrow> applyOptions opts st')"

text \<open>
  The registry as NewRegistry builds it before any option runs: the objects are
  allocated at the end of the heap \<open>h\<close>.
\<close>

definition initialRegistry :: "heap \<Rightarrow> StorageDriver \<Rightarrow> registry \<times> heap" where
  "initialRegistry h drv =
    (let registryOptions = length (h_options h);
         statter = length (h_statters h);
         bs = length (h_stores h);
         srv = length (h_servers h)
     in (\<lparr>globalBlobStore = bs,
          globalBlobServer = srv,
          globalStatter = statter,
          globalBlobDescriptorCacheProvider = None,
          options = registryOptions,
          deleteEnabled = False,
          schema1Enabled = False,
          resumableDigestEnabled = True,
          schema1SigningKey = None,
          blobDescriptorServiceFactory = None,
          manifestURLs_allow = None,
          manifestURLs_deny = None,
          driver = drv\<rparr>,
         \<lparr>h_options = h_options h @
            [\<lparr>repositoryBlobStoreEnabled = False, globalBlobStoreEnabled = True, redirect = False\<rparr>],
          h_statters = h_statters h @
            [\<lparr>st_driver = drv, st_options = registryOptions, st_repositoryScope = []\<rparr>],
          h_stores = h_stores h @
            [\<lparr>bs_driver = drv, bs_statter = Statter statter, bs_options = registryOptions,
              bs_repositoryScope = []\<rparr>],
          h_servers = h_servers h @
            [\<lparr>sv_driver = drv, sv_options = registryOptions, sv_statter = Statter statter,
              sv_pathFn = bs\<rparr>]\<rparr>))"

definition NewRegistry :: "heap \<Rightarrow> StorageDriver \<Rightarrow> RegistryOption list \<Rightarrow> error + registry \<times> heap" where
  "NewRegistry h drv opts = applyOptions opts (initialRegistry h drv)"

subsection \<open>Repositories and their scoped stores\<close>

record repository =
  repo_registry :: registry
  repo_name :: string
  repo_descriptorCache :: "nat option"

definition scopedBlobStatter :: "repository \<Rightarrow> heap \<Rightarrow> addr \<times> heap" where
  "scopedBlobStatter repo h =
    (if repositoryBlobStoreEnabled (h_options h ! options (repo_registry repo)) then
       (length (h_statters h),
        h\<lparr>h_statters := h_statters h @
           [\<lparr>st_driver = driver (repo_registry repo),
             st_options = options (repo_registry repo),
             st_repositoryScope = repo_name repo\<rparr>]\<rparr>)
     else (globalStatter (repo_registry repo), h))"

definition scopedBlobStore :: "repository \<Rightarrow> heap \<Rightarrow> addr \<times> heap" where
  "scopedBlobStore repo h =
    (if repositoryBlobStoreEnabled (h_options h ! options (repo_registry repo)) then
       (case scopedBlobStatter repo h of (statter, h1) \<Rightarrow>
          (length (h_stores h1),
           h1\<lparr>h_stores := h_stores h1 @
              [\<lparr>bs_driver = driver (repo_registry repo),
                bs_statter = Statter statter,
                bs_options = options (repo_registry repo),
                bs_repositoryScope = repo_name repo\<rparr>]\<rparr>))
     else (globalBlobStore (repo_registry repo), h))"

definition scopedBlobServer :: "repository \<Rightarrow> heap \<Rightarrow> addr \<times> heap" where
  "scopedBlobServer repo h =
    (if repositoryBlobStoreEnabled (h_options h ! options (repo_registry repo)) then
       (case scopedBlobStore repo h of (bs, h1) \<Rightarrow>
          (length (h_servers h1),
           h1\<lparr>h_servers := h_servers h1 @
              [\<lparr>sv_driver = driver (repo_registry repo),
                sv_options = options (repo_registry repo),
                sv_statter = bs_statter (h_stores h1 ! bs),
                sv_pathFn = bs\<rparr>]\<rparr>))
     else (globalBlobServer (repo_registry repo), h))"

text \<open>
  tagStore, linkedBlobStore and manifestStore, with the fields through which
  registry.go hands them a repository, a blob store, a blob server and the
  registry's flags. The request context, the blob access controller and the
  handlers of the newer manifest schemas carry no store of their own and are
  left out; a field registry.go does not set has Go's zero value.
\<close>

record tagStore =
  ts_repository :: string
  ts_blobStore :: addr

datatype linkPathFunc = manifestRevisionLinkPath | blobLinkPath

record linkedBlobStore =
  lbs_blobStore :: addr
  lbs_blobServer :: "addr option"
  lbs_repository :: string
  lbs_deleteEnabled :: bool
  lbs_resumableDigestEnabled :: bool
  lbs_linkPathFns :: "linkPathFunc list"

datatype ManifestHandler = signedManifestHandler | v1UnsupportedHandler

record manifestStore =
  mst_repository :: string
  mst_blobStore :: linkedBlobStore
  mst_schema1Handler :: ManifestHandler

definition repository_Tags :: "repository \<Rightarrow> heap \<Rightarrow> tagStore \<times> heap" where
  "repository_Tags repo h =
    (case scopedBlobStore repo h of (bs, h1) \<Rightarrow>
       (\<lparr>ts_repository = repo_name repo, ts_blobStore = bs\<rparr>, h1))"

fun applyManifestOptions :: "(manifestStore \<Rightarrow> error + manifestStore) list \<Rightarrow> manifestStore
    \<Rightarrow> error + manifestStore" where
  "applyManifestOptions [] ms = Inr ms"
| "applyManifestOptions (opt # opts) ms =
    (case opt ms of
       Inl err \<Rightarrow> Inl err
     | Inr ms' \<Rightarrow> applyManifestOptions opts ms')"

definition repository_Manifests :: "repository \<Rightarrow> (manifestStore \<Rightarrow> error + manifestStore) list
    \<Rightarrow> heap \<Rightarrow> (error + manifestStore) \<times> heap" where
  "repository_Manifests repo opts h =
    (case scopedBlobStore repo h of (bs, h1) \<Rightarrow>
       (let blobStore = \<lparr>lbs_blobStore = bs,
                         lbs_blobServer = None,
                         lbs_repository = repo_name repo,
                         lbs_deleteEnabled = deleteEnabled (repo_registry repo),
                         lbs_resumableDigestEnabled = False,
                         lbs_linkPathFns = [manifestRevisionLinkPath, blobLinkPath]\<rparr>;
            v1Handler = (if schema1Enabled (repo_registry repo) then signedManifestHandler
                         else v1UnsupportedHandler);
            ms = \<lparr>mst_repository = repo_name repo, mst_blobStore = blobStore,
                  mst_schema1Handler = v1Handler\<rparr>
        in (applyManifestOptions opts ms, h1)))"

definition repository_Blobs :: "repository \<Rightarrow> heap \<Rightarrow> linkedBlobStore \<times> heap" where
  "repository_Blobs repo h =
    (case scopedBlobStore repo h of (bs, h1) \<Rightarrow>
      (case scopedBlobServer repo h1 of (blobServer, h2) \<Rightarrow>
         (\<lparr>lbs_blobStore = bs,
           lbs_blobServer = Some blobServer,
           lbs_repository = repo_name repo,
           lbs_deleteEnabled = deleteEnabled (repo_registry repo),
           lbs_resumableDigestEnabled = resumableDigestEnabled (repo_registry repo),
           lbs_linkPathFns = [blobLinkPath]\<rparr>, h2)))"

section \<open>Vocabulary of the properties\<close>

text \<open>
  What the tag service says about a digest: untagged when the lookup returns no
  tag, tagged when it returns at least one. A failed lookup is neither.
\<close>

definition untagged :: "'st Repository \<Rightarrow> digest \<Rightarrow> bool" where
  "untagged repo d = (Lookup (Tags repo) d = Inr [])"

definition tagged :: "'st Repository \<Rightarrow> digest \<Rightarrow> bool" where
  "tagged repo d = (case Lookup (Tags repo) d of Inl err \<Rightarrow> False | Inr tags \<Rightarrow> tags \<noteq> [])"

text \<open>The digests of the descriptors returned by References() of the manifest fetched for d.\<close>

definition referenced :: "ManifestService \<Rightarrow> digest \<Rightarrow> digest set" where
  "referenced service d =
     (case Get service d of Inl err \<Rightarrow> {} | Inr manifest \<Rightarrow> desc_Digest ` set (References manifest))"

text \<open>The pending deletion recorded for an untagged digest.\<close>

definition pending :: "'st Repository \<Rightarrow> digest \<Rightarrow> ManifestDel" where
  "pending repo d = \<lparr>md_Name = Named repo, md_Digest = d,
     md_Tags = (case AllTags (Tags repo) of Inl err \<Rightarrow> [] | Inr allTags \<Rightarrow> allTags)\<rparr>"

text \<open>The reads the callback of the mark phase makes for one digest.\<close>

definition mark_events :: "'st Repository \<Rightarrow> digest \<Rightarrow> event list" where
  "mark_events repo d =
     (case Lookup (Tags repo) d of
        Inl err \<Rightarrow> [TagsLookup (Named repo) d]
      | Inr tags \<Rightarrow> if tags = [] then [TagsLookup (Named repo) d, TagsAll (Named repo)]
                   else [TagsLookup (Named repo) d, ManifestGet (Named repo) d])"

text \<open>The digests on which the trace shows a tag lookup, and a vacuum call of either kind.\<close>

fun looked_up :: "event list \<Rightarrow> digest list" where
  "looked_up [] = []"
| "looked_up (TagsLookup n d # es) = d # looked_up es"
| "looked_up (e # es) = looked_up es"

fun removed_manifests :: "event list \<Rightarrow> digest list" where
  "removed_manifests [] = []"
| "removed_manifests (VacuumRemoveManifest n d ts # es) = d # removed_manifests es"
| "removed_manifests (e # es) = removed_manifests es"

fun removed_blobs :: "event list \<Rightarrow> digest list" where
  "removed_blobs [] = []"
| "removed_blobs (VacuumRemoveRepositoryBlob n d # es) = d # removed_blobs es"
| "removed_blobs (e # es) = removed_blobs es"

text \<open>The vacuum call made for a pending manifest deletion.\<close>

definition rm_event :: "ManifestDel \<Rightarrow> event" where
  "rm_event obj = VacuumRemoveManifest (md_Name obj) (md_Digest obj) (md_Tags obj)"

text \<open>What makes the callback of the mark phase return an error for a digest.\<close>

definition mark_fails :: "'st Repository \<Rightarrow> ManifestService \<Rightarrow> digest \<Rightarrow> bool" where
  "mark_fails repo service d =
     (case Lookup (Tags repo) d of
        Inl err \<Rightarrow> True
      | Inr tags \<Rightarrow> if tags = [] then isl (AllTags (Tags repo)) else isl (Get service d))"

text \<open>The manifests of a namespace: those of each of its repositories.\<close>

definition namespace_manifests :: "'st Repository list \<Rightarrow> digest list" where
  "namespace_manifests ns =
     concat (map (\<lambda>repo. case Manifests repo of Inl err \<Rightarrow> [] | Inr service \<Rightarrow> ms_items service) ns)"

text \<open>
  A blob store allocated between heap \<open>h\<close> and heap \<open>h'\<close> whose scope, and
  whose statter's scope, is the repository \<open>name\<close>; its statter is as new.
\<close>

definition fresh_scoped_store :: "heap \<Rightarrow> heap \<Rightarrow> string \<Rightarrow> addr \<Rightarrow> bool" where
  "fresh_scoped_store h h' name a =
     (length (h_stores h) \<le> a \<and> a < length (h_stores h') \<and>
      bs_repositoryScope (h_stores h' ! a) = name \<and>
      (case bs_statter (h_stores h' ! a) of
         Statter sa \<Rightarrow> length (h_statters h) \<le> sa \<and> sa < length (h_statters h') \<and>
                       st_repositoryScope (h_statters h' ! sa) = name
       | CachedBlobStatter p sa \<Rightarrow> False))"

text \<open>Heap \<open>h'\<close> is heap \<open>h\<close> with objects added: nothing that existed is changed.\<close>

definition heap_extends :: "heap \<Rightarrow> heap \<Rightarrow> bool" where
  "heap_extends h h' =
     (h_options h' = h_options h \<and>
      take (length (h_statters h)) (h_statters h') = h_statters h \<and>
      take (length (h_stores h)) (h_stores h') = h_stores h \<and>
      take (length (h_servers h)) (h_servers h') = h_servers h)"

definition emptyHeap :: heap where
  "emptyHeap = \<lparr>h_options = [], h_statters = [], h_stores = [], h_servers = []\<rparr>"

definition emptyResponse :: ResponseWriter where
  "emptyResponse = \<lparr>rw_header = Map.empty, rw_status = None, rw_body = []\<rparr>"

section \<open>Example repositories\<close>

text \<open>
  Small repositories on which the theorems are run. The storage is the list of
  digests a repository still holds; both vacuum removals take the digest out
  and succeed.
\<close>

definition layer :: "digest \<Rightarrow> Descriptor" where
  "layer d = \<lparr>desc_Digest = d, desc_Size = 0, desc_MediaType = ''layer''\<rparr>"

definition tagsOf :: "(string \<times> digest) list \<Rightarrow> TagService" where
  "tagsOf ts =
     \<lparr>Lookup = (\<lambda>d. Inr (map fst (filter (\<lambda>p. snd p = d) ts))),
      AllTags = Inr (map fst ts)\<rparr>"

definition manifestsOf :: "(digest \<times> digest list) list \<Rightarrow> ManifestService" where
  "manifestsOf ms =
     \<lparr>isEnumerator = True,
      ms_items = map fst ms,
      ms_fail = None,
      Get = (\<lambda>d. case map_of ms d of
                    None \<Rightarrow> Inl ''manifest unknown''
                  | Some refs \<Rightarrow> Inr \<lparr>References = map layer refs\<rparr>)\<rparr>"

definition blobsOf :: "bool \<Rightarrow> (digest list) BlobsEnumerator" where
  "blobsOf scoped = \<lparr>IsScopped = scoped, be_items = (\<lambda>s. s), be_fail = (\<lambda>s. None)\<rparr>"

definition plainVacuum :: "(digest list) Vacuum" where
  "plainVacuum =
     \<lparr>RemoveManifest = (\<lambda>n d ts s. (None, removeAll d s)),
      RemoveRepositoryBlob = (\<lambda>n d s. (None, removeAll d s))\<rparr>"

definition contextOf :: "string \<Rightarrow> (string \<times> digest) list \<Rightarrow> (digest \<times> digest list) list \<Rightarrow> bool
    \<Rightarrow> (digest list) Context" where
  "contextOf name ts ms scoped =
     \<lparr>readOnly = False,
      Repository = \<lparr>Named = name, Tags = tagsOf ts, Manifests = Inr (manifestsOf ms),
                    RepositoryBlobsEnumerator = Some (blobsOf scoped)\<rparr>,
      NewVacuum = plainVacuum\<rparr>"

text \<open>
  Manifest A, tagged latest, references b1 and b2; manifest B, untagged,
  references b2 and b3.
\<close>

definition appManifests :: "(digest \<times> digest list) list" where
  "appManifests = [(''A'', [''b1'', ''b2'']), (''B'', [''b2'', ''b3''])]"

definition appContext :: "(digest list) Context" where
  "appContext = contextOf ''app'' [(''latest'', ''A'')] appManifests True"

definition appStorage :: "digest list" where
  "appStorage = [''A'', ''B'', ''b1'', ''b2'', ''b3'']"

text \<open>The same repository on the global blob store: its blob enumerator is not scoped.\<close>

definition globalContext :: "(digest list) Context" where
  "globalContext = contextOf ''app'' [(''latest'', ''A'')] appManifests False"

text \<open>
  A manifest list L, tagged latest, whose entry is the manifest C; C has no tag
  of its own and references the layer b.
\<close>

definition listManifests :: "(digest \<times> digest list) list" where
  "listManifests = [(''L'', [''C'']), (''C'', [''b''])]"

definition listContext :: "(digest list) Context" where
  "listContext = contextOf ''multi'' [(''latest'', ''L'')] listManifests True"

definition listStorage :: "digest list" where
  "listStorage = [''L'', ''C'', ''b'']"

text \<open>A repository whose tag lookup fails for the second manifest.\<close>

definition brokenContext :: "(digest list) Context" where
  "brokenContext =
     \<lparr>readOnly = False,
      Repository =
        \<lparr>Named = ''app'',
         Tags = \<lparr>Lookup = (\<lambda>d. if d = ''B'' then Inl ''driver failure'' else Inr []),
                 AllTags = Inr []\<rparr>,
         Manifests = Inr (manifestsOf appManifests),
         RepositoryBlobsEnumerator = Some (blobsOf True)\<rparr>,
      NewVacuum = plainVacuum\<rparr>"

text \<open>A repository without manifests whose vacuum cannot remove a repository blob.\<close>

definition stuckContext :: "(digest list) Context" where
  "stuckContext =
     \<lparr>readOnly = False,
      Repository =
        \<lparr>Named = ''app'', Tags = tagsOf [], Manifests = Inr (manifestsOf []),
         RepositoryBlobsEnumerator = Some (blobsOf True)\<rparr>,
      NewVacuum =
        \<lparr>RemoveManifest = (\<lambda>n d ts s. (None, removeAll d s)),
         RemoveRepositoryBlob = (\<lambda>n d s. (Some ''driver failure'', s))\<rparr>\<rparr>"

text \<open>A second repository of the namespace, with one tagged manifest M.\<close>

definition otherContext :: "(digest list) Context" where
  "otherContext = contextOf ''other'' [(''v1'', ''M'')] [(''M'', [''c1''])] True"

text \<open>A registry option that fails.\<close>

definition failingOption :: RegistryOption where
  "failingOption st = Inl ''bad option''"

definition appRepository :: "registry \<Rightarrow> repository" where
  "appRepository reg = \<lparr>repo_registry = reg, repo_name = ''app'', repo_descriptorCache = None\<rparr>"

definition otherRepository :: "registry \<Rightarrow> repository" where
  "otherRepository reg = \<lparr>repo_registry = reg, repo_name = ''other'', repo_descriptorCache = None\<rparr>"


text \<open>
  A registry built on the empty heap with no option, and the same registry with
  repository blob storage enabled.
\<close>

definition globalSetup :: "registry \<times> heap" where
  "globalSetup = initialRegistry emptyHeap 0"

definition scopedSetup :: "registry \<times> heap" where
  "scopedSetup =
     (fst globalSetup,
      update_options (\<lambda>ro. ro\<lparr>repositoryBlobStoreEnabled := True\<rparr>) globalSetup)"

text \<open>The context of the example repository with the registry configured read-only.\<close>

definition readOnlyContext :: "(digest list) Context" where
  "readOnlyContext = appContext\<lparr>readOnly := True\<rparr>"

text \<open>
  The example repository with a vacuum that removes manifests but cannot remove
  a repository blob.
\<close>

definition stuckAppContext :: "(digest list) Context" where
  "stuckAppContext =
     appContext\<lparr>NewVacuum :=
       \<lparr>RemoveManifest = (\<lambda>n d ts s. (None, removeAll d s)),
        RemoveRepositoryBlob = (\<lambda>n d s. (Some ''driver failure'', s))\<rparr>\<rparr>"

section \<open>Properties of the mark phase\<close>

lemmas fixture_defs = appContext_def globalContext_def listContext_def brokenContext_def
  stuckContext_def stuckAppContext_def otherContext_def contextOf_def tagsOf_def manifestsOf_def blobsOf_def
  plainVacuum_def layer_def appStorage_def appManifests_def listManifests_def listStorage_def

lemmas gc_defs = runGCCycle_def markAllManifests_def markCallback_def markManifest_def
  removeUntagged_def sweepBlobs_def sweepCallback_def

lemma markDescriptors_eq: "markDescriptors ds ms = ms \<union> desc_Digest ` set ds"
  by (induction ds arbitrary: ms) auto

lemma tagged_not_untagged: "tagged repo d \<Longrightarrow> \<not> untagged repo d"
  by (auto simp: tagged_def untagged_def)

lemma markCallback_trace:
  "markCallback repo svc d (arr, ms, tr) = (r, arr', ms', tr') \<Longrightarrow> tr' = tr @ mark_events repo d"
  by (auto simp: markCallback_def markManifest_def mark_events_def removeUntagged_def
      split: sum.splits if_splits)

lemma markCallback_ok:
  "markCallback repo svc d (arr, ms, tr) = (None, arr', ms', tr') \<Longrightarrow>
     (untagged repo d \<and> (\<exists>allTags. AllTags (Tags repo) = Inr allTags) \<and>
        arr' = arr @ [pending repo d] \<and> ms' = ms) \<or>
     (tagged repo d \<and> (\<exists>m. Get svc d = Inr m) \<and> arr' = arr \<and>
        ms' = ms \<union> insert d (referenced svc d))"
  by (auto simp: markCallback_def markManifest_def untagged_def tagged_def pending_def
      referenced_def removeUntagged_def markDescriptors_eq split: sum.splits if_splits)

lemma markCallback_untagged_keeps_markSet:
  "untagged repo d \<Longrightarrow> fst (snd (snd (markCallback repo svc d (arr, ms, tr)))) = ms"
  by (auto simp: markCallback_def untagged_def removeUntagged_def split: sum.splits)

lemma markCallback_lookup_error:
  "Lookup (Tags repo) d = Inl e \<Longrightarrow>
     markCallback repo svc d (arr, ms, tr) =
       (Some (''failed to retrieve tags for digest '' @ d @ '': '' @ e), arr, ms,
        tr @ [TagsLookup (Named repo) d])"
  by (simp add: markCallback_def removeUntagged_def)

lemma Enumerate_mark_ok:
  "Enumerate items own (markCallback repo svc) (arr, ms, tr) = (None, arr', ms', tr') \<Longrightarrow>
     own = None \<and>
     (\<forall>d\<in>set items. (untagged repo d \<and> (\<exists>allTags. AllTags (Tags repo) = Inr allTags)) \<or>
                      (tagged repo d \<and> (\<exists>m. Get svc d = Inr m))) \<and>
     arr' = arr @ map (pending repo) (filter (untagged repo) items) \<and>
     ms' = ms \<union> (\<Union>d\<in>{d \<in> set items. tagged repo d}. insert d (referenced svc d)) \<and>
     tr' = tr @ concat (map (mark_events repo) items)"
proof (induction items arbitrary: arr ms tr)
  case Nil
  then show ?case by simp
next
  case (Cons d ds)
  obtain r a1 m1 t1 where step: "markCallback repo svc d (arr, ms, tr) = (r, a1, m1, t1)"
    by (metis prod_cases4)
  with Cons.prems have r: "r = None"
    by (cases r) auto
  from Cons.prems step r
  have rest: "Enumerate ds own (markCallback repo svc) (a1, m1, t1) = (None, arr', ms', tr')"
    by simp
  note ih = Cons.IH [OF rest]
  from step r have t1: "t1 = tr @ mark_events repo d"
    using markCallback_trace by blast
  from step r markCallback_ok [of repo svc d arr ms tr a1 m1 t1]
  consider (u) "untagged repo d" "\<exists>allTags. AllTags (Tags repo) = Inr allTags"
      "a1 = arr @ [pending repo d]" "m1 = ms"
    | (t) "tagged repo d" "\<exists>m. Get svc d = Inr m" "a1 = arr" "m1 = ms \<union> insert d (referenced svc d)"
    by blast
  then show ?case
  proof cases
    case u
    then have nt: "\<not> tagged repo d" using tagged_not_untagged by blast
    show ?thesis using ih u nt t1 by auto
  next
    case t
    then have nu: "\<not> untagged repo d" using tagged_not_untagged by blast
    show ?thesis using ih t nu t1 by auto
  qed
qed

lemma Enumerate_mark_trace:
  "Enumerate items own (markCallback repo svc) (arr, ms, tr) = (r, arr', ms', tr') \<Longrightarrow>
     \<exists>k\<le>length items. tr' = tr @ concat (map (mark_events repo) (take k items))"
proof (induction items arbitrary: arr ms tr)
  case Nil
  then show ?case by simp
next
  case (Cons d ds)
  obtain r1 a1 m1 t1 where step: "markCallback repo svc d (arr, ms, tr) = (r1, a1, m1, t1)"
    by (metis prod_cases4)
  then have t1: "t1 = tr @ mark_events repo d"
    using markCallback_trace by blast
  show ?case
  proof (cases r1)
    case None
    with Cons.prems step
    have "Enumerate ds own (markCallback repo svc) (a1, m1, t1) = (r, arr', ms', tr')"
      by simp
    from Cons.IH [OF this] obtain k where
      k: "k \<le> length ds" "tr' = t1 @ concat (map (mark_events repo) (take k ds))"
      by blast
    with t1 have "Suc k \<le> length (d # ds) \<and>
        tr' = tr @ concat (map (mark_events repo) (take (Suc k) (d # ds)))"
      by simp
    then show ?thesis by blast
  next
    case (Some e)
    with Cons.prems step have "tr' = t1" by simp
    with t1 have "Suc 0 \<le> length (d # ds) \<and>
        tr' = tr @ concat (map (mark_events repo) (take (Suc 0) (d # ds)))"
      by simp
    then show ?thesis by blast
  qed
qed

lemma markAllManifests_ok:
  assumes "markAllManifests bh service ([], {}, []) = (None, manifestArr, markSet, tr)"
  shows "isEnumerator service \<and> ms_fail service = None \<and>
     (\<forall>d\<in>set (ms_items service).
        (untagged (Repository bh) d \<and> (\<exists>allTags. AllTags (Tags (Repository bh)) = Inr allTags)) \<or>
        (tagged (Repository bh) d \<and> (\<exists>m. Get service d = Inr m))) \<and>
     manifestArr = map (pending (Repository bh)) (filter (untagged (Repository bh)) (ms_items service)) \<and>
     markSet = (\<Union>d\<in>{d \<in> set (ms_items service). tagged (Repository bh) d}. insert d (referenced service d)) \<and>
     tr = concat (map (mark_events (Repository bh)) (ms_items service))"
proof -
  from assms have en: "isEnumerator service"
    by (auto simp: markAllManifests_def split: if_splits)
  with assms have "Enumerate (ms_items service) (ms_fail service)
      (markCallback (Repository bh) service) ([], {}, []) = (None, manifestArr, markSet, tr)"
    by (simp add: markAllManifests_def)
  from Enumerate_mark_ok [OF this] en show ?thesis by simp
qed

lemma markAllManifests_trace:
  assumes "markAllManifests bh service ([], {}, []) = (r, manifestArr, markSet, tr)"
  shows "\<exists>k\<le>length (ms_items service).
           tr = concat (map (mark_events (Repository bh)) (take k (ms_items service)))"
proof (cases "isEnumerator service")
  case True
  with assms have "Enumerate (ms_items service) (ms_fail service)
      (markCallback (Repository bh) service) ([], {}, []) = (r, manifestArr, markSet, tr)"
    by (simp add: markAllManifests_def)
  from Enumerate_mark_trace [OF this] show ?thesis by simp
next
  case False
  with assms have "tr = []" by (simp add: markAllManifests_def)
  then show ?thesis by auto
qed

lemma mark_events_no_deletion: "e \<in> set (mark_events repo d) \<Longrightarrow> \<not> is_deletion e"
  by (auto simp: mark_events_def split: sum.splits if_splits)

lemma mark_trace_no_deletion:
  "e \<in> set (concat (map (mark_events repo) ds)) \<Longrightarrow> \<not> is_deletion e"
  using mark_events_no_deletion by fastforce

text \<open>
  C1. When the mark phase completes, every enumerated digest that has at least
  one tag is in the mark set together with the digest of every descriptor
  returned by References() of its manifest; every enumerated digest with no tag
  is recorded as a pending deletion with the repository name and the full tag
  list of the repository, and the callback leaves the mark set as it was for
  it. The mark set holds nothing but the contributions of the tagged digests.
\<close>

theorem mark_phase_per_manifest:
  assumes "markAllManifests bh service ([], {}, []) = (None, manifestArr, markSet, tr)"
  shows "(\<forall>dgst\<in>set (ms_items service).
      (tagged (Repository bh) dgst \<longrightarrow>
         dgst \<in> markSet \<and>
         (\<exists>manifest. Get service dgst = Inr manifest \<and>
            desc_Digest ` set (References manifest) \<subseteq> markSet)) \<and>
      (untagged (Repository bh) dgst \<longrightarrow>
         (\<exists>allTags. AllTags (Tags (Repository bh)) = Inr allTags \<and>
            \<lparr>md_Name = Named (Repository bh), md_Digest = dgst, md_Tags = allTags\<rparr>
              \<in> set manifestArr) \<and>
         (\<forall>arr ms t. fst (snd (snd (markCallback (Repository bh) service dgst (arr, ms, t)))) = ms))) \<and>
    markSet = (\<Union>d\<in>{d \<in> set (ms_items service). tagged (Repository bh) d}.
                 insert d (referenced service d))"
proof -
  note ok = markAllManifests_ok [OF assms]
  let ?repo = "Repository bh"
  have "(tagged ?repo dgst \<longrightarrow>
         dgst \<in> markSet \<and>
         (\<exists>manifest. Get service dgst = Inr manifest \<and>
            desc_Digest ` set (References manifest) \<subseteq> markSet)) \<and>
      (untagged ?repo dgst \<longrightarrow>
         (\<exists>allTags. AllTags (Tags ?repo) = Inr allTags \<and>
            \<lparr>md_Name = Named ?repo, md_Digest = dgst, md_Tags = allTags\<rparr> \<in> set manifestArr) \<and>
         (\<forall>arr ms t. fst (snd (snd (markCallback ?repo service dgst (arr, ms, t)))) = ms))"
    if d: "dgst \<in> set (ms_items service)" for dgst
  proof (intro conjI impI)
    assume tg: "tagged ?repo dgst"
    from ok d tg show "dgst \<in> markSet" by blast
    from ok d tg obtain m where m: "Get service dgst = Inr m"
      using tagged_not_untagged by blast
    from ok d tg have "referenced service dgst \<subseteq> markSet" by blast
    with m show "\<exists>manifest. Get service dgst = Inr manifest \<and>
            desc_Digest ` set (References manifest) \<subseteq> markSet"
      by (simp add: referenced_def)
  next
    assume un: "untagged ?repo dgst"
    with ok d obtain allTags where a: "AllTags (Tags ?repo) = Inr allTags"
      using tagged_not_untagged by blast
    from ok d un have "pending ?repo dgst \<in> set manifestArr" by simp
    with a show "\<exists>allTags. AllTags (Tags ?repo) = Inr allTags \<and>
            \<lparr>md_Name = Named ?repo, md_Digest = dgst, md_Tags = allTags\<rparr> \<in> set manifestArr"
      by (simp add: pending_def)
    from un show "\<forall>arr ms t. fst (snd (snd (markCallback ?repo service dgst (arr, ms, t)))) = ms"
      using markCallback_untagged_keeps_markSet by blast
  qed
  with ok show ?thesis by blast
qed

theorem mark_phase_per_manifest_witness:
  "markAllManifests appContext (manifestsOf appManifests) ([], {}, []) =
     (None, [\<lparr>md_Name = ''app'', md_Digest = ''B'', md_Tags = [''latest'']\<rparr>],
      {''A'', ''b1'', ''b2''},
      [TagsLookup ''app'' ''A'', ManifestGet ''app'' ''A'', TagsLookup ''app'' ''B'', TagsAll ''app''])
   \<and> tagged (Repository appContext) ''A'' \<and> untagged (Repository appContext) ''B''
   \<and> {''A'', ''b1'', ''b2''} =
       (\<Union>d\<in>{d \<in> set (ms_items (manifestsOf appManifests)). tagged (Repository appContext) d}.
          insert d (referenced (manifestsOf appManifests) d))"
proof -
  have run: "markAllManifests appContext (manifestsOf appManifests) ([], {}, []) =
     (None, [\<lparr>md_Name = ''app'', md_Digest = ''B'', md_Tags = [''latest'']\<rparr>],
      {''A'', ''b1'', ''b2''},
      [TagsLookup ''app'' ''A'', ManifestGet ''app'' ''A'', TagsLookup ''app'' ''B'', TagsAll ''app''])"
    by (simp add: fixture_defs gc_defs insert_commute)
  have tg: "tagged (Repository appContext) ''A''" "untagged (Repository appContext) ''B''"
    by (simp_all add: fixture_defs tagged_def untagged_def)
  from mark_phase_per_manifest [OF run] run tg show ?thesis by simp
qed


section \<open>Properties of the sweep phase and of the whole cycle\<close>

lemma looked_up_append: "looked_up (xs @ ys) = looked_up xs @ looked_up ys"
  by (induction xs rule: looked_up.induct) simp_all

lemma removed_manifests_append:
  "removed_manifests (xs @ ys) = removed_manifests xs @ removed_manifests ys"
  by (induction xs rule: removed_manifests.induct) simp_all

lemma removed_blobs_append: "removed_blobs (xs @ ys) = removed_blobs xs @ removed_blobs ys"
  by (induction xs rule: removed_blobs.induct) simp_all

lemma projections_mark_events:
  "looked_up (mark_events repo d) = [d]"
  "removed_manifests (mark_events repo d) = []"
  "removed_blobs (mark_events repo d) = []"
  by (auto simp: mark_events_def split: sum.splits)

lemma projections_mark_trace:
  "looked_up (concat (map (mark_events repo) ds)) = ds"
  "removed_manifests (concat (map (mark_events repo) ds)) = []"
  "removed_blobs (concat (map (mark_events repo) ds)) = []"
  by (induction ds)
    (simp_all add: looked_up_append removed_manifests_append removed_blobs_append
      projections_mark_events)

lemma projections_rm_events:
  "looked_up (map rm_event arr) = []"
  "removed_manifests (map rm_event arr) = map md_Digest arr"
  "removed_blobs (map rm_event arr) = []"
  by (induction arr) (simp_all add: rm_event_def)

lemma projections_blob_events:
  "looked_up (map (VacuumRemoveRepositoryBlob n) ds) = []"
  "removed_manifests (map (VacuumRemoveRepositoryBlob n) ds) = []"
  "removed_blobs (map (VacuumRemoveRepositoryBlob n) ds) = ds"
  by (induction ds) simp_all

lemmas projection_simps = looked_up_append removed_manifests_append removed_blobs_append
  projections_mark_trace projections_rm_events projections_blob_events

lemma removeManifests_trace:
  "removeManifests vac arr (s, tr) = (r, s', tr') \<Longrightarrow>
     \<exists>k\<le>length arr. tr' = tr @ map rm_event (take k arr) \<and> (r = None \<longrightarrow> k = length arr)"
proof (induction arr arbitrary: s tr)
  case Nil
  then show ?case by simp
next
  case (Cons obj objs)
  obtain r1 s1 where step: "RemoveManifest vac (md_Name obj) (md_Digest obj) (md_Tags obj) s = (r1, s1)"
    by (cases "RemoveManifest vac (md_Name obj) (md_Digest obj) (md_Tags obj) s")
  show ?case
  proof (cases r1)
    case None
    with Cons.prems step
    have "removeManifests vac objs (s1, tr @ [rm_event obj]) = (r, s', tr')"
      by (simp add: rm_event_def)
    from Cons.IH [OF this] obtain k where
      k: "k \<le> length objs" "tr' = (tr @ [rm_event obj]) @ map rm_event (take k objs)"
         "r = None \<longrightarrow> k = length objs"
      by blast
    then have "Suc k \<le> length (obj # objs) \<and> tr' = tr @ map rm_event (take (Suc k) (obj # objs)) \<and>
        (r = None \<longrightarrow> Suc k = length (obj # objs))"
      by simp
    then show ?thesis by blast
  next
    case (Some e)
    with Cons.prems step have "tr' = tr @ [rm_event obj]" "r \<noteq> None"
      by (auto simp: rm_event_def)
    then have "Suc 0 \<le> length (obj # objs) \<and> tr' = tr @ map rm_event (take (Suc 0) (obj # objs)) \<and>
        (r = None \<longrightarrow> Suc 0 = length (obj # objs))"
      by auto
    then show ?thesis by blast
  qed
qed

lemma sweepCallback_marked:
  "d \<in> ms \<Longrightarrow> sweepCallback bh ms d (s, tr) = (None, s, tr)"
  by (simp add: sweepCallback_def)

lemma sweepCallback_unmarked:
  "d \<notin> ms \<Longrightarrow> sweepCallback bh ms d (s, tr) =
     (None, snd (RemoveRepositoryBlob (NewVacuum bh) (Named (Repository bh)) d s),
      tr @ [VacuumRemoveRepositoryBlob (Named (Repository bh)) d])"
  by (simp add: sweepCallback_def)

lemma Enumerate_sweep:
  "Enumerate items own (sweepCallback bh ms) (s, tr) = (r, s', tr') \<Longrightarrow>
     r = own \<and>
     tr' = tr @ map (VacuumRemoveRepositoryBlob (Named (Repository bh)))
                  (filter (\<lambda>d. d \<notin> ms) items)"
proof (induction items arbitrary: s tr)
  case Nil
  then show ?case by simp
next
  case (Cons d ds)
  show ?case
  proof (cases "d \<in> ms")
    case True
    with Cons.prems have "Enumerate ds own (sweepCallback bh ms) (s, tr) = (r, s', tr')"
      by (simp add: sweepCallback_marked)
    from Cons.IH [OF this] True show ?thesis by simp
  next
    case False
    with Cons.prems have "Enumerate ds own (sweepCallback bh ms)
        (snd (RemoveRepositoryBlob (NewVacuum bh) (Named (Repository bh)) d s),
         tr @ [VacuumRemoveRepositoryBlob (Named (Repository bh)) d]) = (r, s', tr')"
      by (simp add: sweepCallback_unmarked)
    from Cons.IH [OF this] False show ?thesis by simp
  qed
qed

lemma sweepBlobs_trace:
  assumes "sweepBlobs bh blobsService ms (s, tr) = (r, s', tr')"
  shows "tr' = tr @ map (VacuumRemoveRepositoryBlob (Named (Repository bh)))
           (case blobsService of
              None \<Rightarrow> []
            | Some b \<Rightarrow> if IsScopped b then filter (\<lambda>d. d \<notin> ms) (be_items b s) else [])"
proof (cases blobsService)
  case None
  with assms show ?thesis by (simp add: sweepBlobs_def)
next
  case (Some b)
  show ?thesis
  proof (cases "IsScopped b")
    case False
    with Some assms show ?thesis by (simp add: sweepBlobs_def)
  next
    case True
    obtain r1 s1 t1 where en: "Enumerate (be_items b s) (be_fail b s) (sweepCallback bh ms) (s, tr)
        = (r1, s1, t1)"
      by (metis prod_cases3)
    with Some True assms have "tr' = t1"
      by (auto simp: sweepBlobs_def split: option.splits)
    with Enumerate_sweep [OF en] Some True show ?thesis by simp
  qed
qed

text \<open>The four ways a cycle ends.\<close>

lemma runGCCycle_cases:
  assumes "runGCCycle bh s = (r, s', tr)"
  obtains
    (construct) err where "Manifests (Repository bh) = Inl err"
      "r = Some (''failed to construct manifest service: '' @ err)" "s' = s" "tr = []"
  | (mark_failed) service err arr ms where "Manifests (Repository bh) = Inr service"
      "markAllManifests bh service ([], {}, []) = (Some err, arr, ms, tr)"
      "r = Some (''failed to mark all manifests: '' @ err)" "s' = s"
  | (remove_failed) service arr ms mtr err where "Manifests (Repository bh) = Inr service"
      "markAllManifests bh service ([], {}, []) = (None, arr, ms, mtr)"
      "removeManifests (NewVacuum bh) arr (s, mtr) = (Some err, s', tr)" "r = Some err"
  | (swept) service arr ms mtr s1 tr1 where "Manifests (Repository bh) = Inr service"
      "markAllManifests bh service ([], {}, []) = (None, arr, ms, mtr)"
      "removeManifests (NewVacuum bh) arr (s, mtr) = (None, s1, tr1)"
      "sweepBlobs bh (RepositoryBlobsEnumerator (Repository bh)) ms (s1, tr1) = (r, s', tr)"
proof (cases "Manifests (Repository bh)")
  case (Inl err)
  with assms have "r = Some (''failed to construct manifest service: '' @ err)" "s' = s" "tr = []"
    by (auto simp: runGCCycle_def)
  with Inl construct show ?thesis by blast
next
  case (Inr service)
  obtain r1 arr ms mtr where mk: "markAllManifests bh service ([], {}, []) = (r1, arr, ms, mtr)"
    by (metis prod_cases4)
  show ?thesis
  proof (cases r1)
    case (Some err)
    with assms Inr mk have "r = Some (''failed to mark all manifests: '' @ err)" "s' = s" "tr = mtr"
      by (auto simp: runGCCycle_def)
    with Inr mk Some mark_failed show ?thesis by blast
  next
    case None
    obtain r2 s1 tr1 where rm: "removeManifests (NewVacuum bh) arr (s, mtr) = (r2, s1, tr1)"
      by (metis prod_cases3)
    show ?thesis
    proof (cases r2)
      case (Some err)
      with assms Inr mk None rm have "r = Some err" "s' = s1" "tr = tr1"
        by (auto simp: runGCCycle_def)
      with Inr mk None rm Some remove_failed show ?thesis by blast
    next
      case None2: None
      with assms Inr mk None rm
      have "sweepBlobs bh (RepositoryBlobsEnumerator (Repository bh)) ms (s1, tr1) = (r, s', tr)"
        by (simp add: runGCCycle_def)
      with Inr mk None rm None2 swept show ?thesis by blast
    qed
  qed
qed

lemma no_deletion_projections:
  "\<forall>e\<in>set tr. \<not> is_deletion e \<Longrightarrow> removed_manifests tr = [] \<and> removed_blobs tr = []"
proof (induction tr)
  case Nil
  then show ?case by simp
next
  case (Cons e es)
  then show ?case by (cases e) simp_all
qed

lemma mark_fails_not_ok:
  assumes "mark_fails repo service d"
  shows "\<not> ((untagged repo d \<and> (\<exists>allTags. AllTags (Tags repo) = Inr allTags)) \<or>
            (tagged repo d \<and> (\<exists>m. Get service d = Inr m)))"
  using assms
  by (auto simp: mark_fails_def untagged_def tagged_def split: sum.splits if_splits)

lemma removeManifests_failure:
  "RemoveManifest vac (md_Name obj) (md_Digest obj) (md_Tags obj) s = (Some err, s1) \<Longrightarrow>
     removeManifests vac (obj # objs) (s, tr) =
       (Some (''failed to delete manifest '' @ md_Digest obj @ '': '' @ err), s1,
        tr @ [rm_event obj])"
  by (simp add: rm_event_def)

lemma rm_events_deletions: "e \<in> set (map rm_event arr) \<Longrightarrow> is_deletion e"
  by (auto simp: rm_event_def)

lemma blob_events_deletions:
  "e \<in> set (map (VacuumRemoveRepositoryBlob n) ds) \<Longrightarrow> is_deletion e"
  by auto

text \<open>
  C2, as the code has it. A manifest that the mark phase enumerates and that
  has at least one tag is never handed to the manifest removal, and neither its
  own digest nor the digest of any descriptor its References() returns is
  handed to the blob removal. The protection is one level deep: a referenced
  manifest without a tag of its own is outside this statement.
\<close>

theorem tagged_manifest_protected:
  assumes run: "runGCCycle bh s = (r, s', tr)"
    and svc: "Manifests (Repository bh) = Inr service"
    and enum: "m \<in> set (ms_items service)"
    and tg: "tagged (Repository bh) m"
  shows "m \<notin> set (removed_manifests tr) \<and> m \<notin> set (removed_blobs tr) \<and>
         referenced service m \<inter> set (removed_blobs tr) = {}"
  using run
proof (cases rule: runGCCycle_cases)
  case (construct err)
  then show ?thesis by simp
next
  case (mark_failed service' err arr ms)
  with svc have "markAllManifests bh service ([], {}, []) = (Some err, arr, ms, tr)" by simp
  from markAllManifests_trace [OF this] show ?thesis
    by (auto simp: projection_simps)
next
  case (remove_failed service' arr ms mtr err)
  with svc have mk: "markAllManifests bh service ([], {}, []) = (None, arr, ms, mtr)" by simp
  note ok = markAllManifests_ok [OF mk]
  from removeManifests_trace [OF remove_failed(3)] obtain k where
    k: "tr = mtr @ map rm_event (take k arr)" by blast
  from tg have nu: "\<not> untagged (Repository bh) m" by (rule tagged_not_untagged)
  from ok nu have "m \<notin> md_Digest ` set arr"
    by (auto simp: pending_def)
  then have "m \<notin> md_Digest ` set (take k arr)"
    using set_take_subset [of k arr] by blast
  moreover from ok have "removed_manifests mtr = []" "removed_blobs mtr = []"
    by (simp_all add: projection_simps)
  ultimately show ?thesis using k by (simp add: projection_simps)
next
  case (swept service' arr ms mtr s1 tr1)
  with svc have mk: "markAllManifests bh service ([], {}, []) = (None, arr, ms, mtr)" by simp
  note ok = markAllManifests_ok [OF mk]
  from removeManifests_trace [OF swept(3)] have tr1: "tr1 = mtr @ map rm_event arr" by auto
  define bl where "bl =
    (case RepositoryBlobsEnumerator (Repository bh) of
       None \<Rightarrow> []
     | Some b \<Rightarrow> if IsScopped b then filter (\<lambda>d. d \<notin> ms) (be_items b s1) else [])"
  from sweepBlobs_trace [OF swept(4)]
  have "tr = tr1 @ map (VacuumRemoveRepositoryBlob (Named (Repository bh))) bl"
    by (simp add: bl_def)
  moreover have "set bl \<inter> ms = {}"
    by (auto simp: bl_def split: option.splits)
  ultimately have bl: "tr = tr1 @ map (VacuumRemoveRepositoryBlob (Named (Repository bh))) bl"
      "set bl \<inter> ms = {}"
    by blast+
  from tg have nu: "\<not> untagged (Repository bh) m" by (rule tagged_not_untagged)
  from ok nu have nm: "m \<notin> md_Digest ` set arr"
    by (auto simp: pending_def)
  from ok enum tg have "insert m (referenced service m) \<subseteq> ms" by blast
  with bl(2) have "m \<notin> set bl" "referenced service m \<inter> set bl = {}" by auto
  moreover from ok have "removed_manifests mtr = []" "removed_blobs mtr = []"
    by (simp_all add: projection_simps)
  ultimately show ?thesis using nm bl(1) tr1 by (simp add: projection_simps)
qed

theorem tagged_manifest_protected_witness:
  "runGCCycle appContext appStorage =
     (None, [''A'', ''b1'', ''b2''],
      [TagsLookup ''app'' ''A'', ManifestGet ''app'' ''A'', TagsLookup ''app'' ''B'',
       TagsAll ''app'', VacuumRemoveManifest ''app'' ''B'' [''latest''],
       VacuumRemoveRepositoryBlob ''app'' ''b3''])
   \<and> tagged (Repository appContext) ''A''
   \<and> referenced (manifestsOf appManifests) ''A'' = {''b1'', ''b2''}
   \<and> ''A'' \<notin> set [''B''] \<and> ''A'' \<notin> set [''b3''] \<and> {''b1'', ''b2''} \<inter> set [''b3''] = {}"
proof -
  have run: "runGCCycle appContext appStorage =
     (None, [''A'', ''b1'', ''b2''],
      [TagsLookup ''app'' ''A'', ManifestGet ''app'' ''A'', TagsLookup ''app'' ''B'',
       TagsAll ''app'', VacuumRemoveManifest ''app'' ''B'' [''latest''],
       VacuumRemoveRepositoryBlob ''app'' ''b3''])"
    by (simp add: fixture_defs gc_defs)
  have svc: "Manifests (Repository appContext) = Inr (manifestsOf appManifests)"
    by (simp add: fixture_defs)
  have enum: "''A'' \<in> set (ms_items (manifestsOf appManifests))"
    by (simp add: fixture_defs)
  have tg: "tagged (Repository appContext) ''A''"
    by (simp add: fixture_defs tagged_def)
  have refs: "referenced (manifestsOf appManifests) ''A'' = {''b1'', ''b2''}"
    by (simp add: fixture_defs referenced_def)
  from tagged_manifest_protected [OF run svc enum tg] run tg refs show ?thesis by simp
qed

text \<open>
  C2 as stated fails: the manifest list L is tagged, its entry C has no tag, and
  the cycle removes the manifest C and the layer b that only C references.
\<close>

theorem nested_manifest_deleted:
  "tagged (Repository listContext) ''L''
   \<and> ''C'' \<in> referenced (manifestsOf listManifests) ''L''
   \<and> ''b'' \<in> referenced (manifestsOf listManifests) ''C''
   \<and> runGCCycle listContext listStorage =
       (None, [''L''],
        [TagsLookup ''multi'' ''L'', ManifestGet ''multi'' ''L'', TagsLookup ''multi'' ''C'',
         TagsAll ''multi'', VacuumRemoveManifest ''multi'' ''C'' [''latest''],
         VacuumRemoveRepositoryBlob ''multi'' ''b''])"
  by (simp add: fixture_defs gc_defs tagged_def referenced_def)

text \<open>
  C3. When the manifest service is no enumerator, or the enumeration itself
  fails, or the tag lookup, the tag listing or the manifest fetch fails for an
  enumerated digest, the cycle returns an error, the storage is the one it
  started from and no removal was requested. A digest whose tag lookup fails
  makes the callback return an error with the pending deletions unchanged.
\<close>

theorem mark_failure_aborts:
  assumes svc: "Manifests (Repository bh) = Inr service"
    and fail: "\<not> isEnumerator service \<or> ms_fail service \<noteq> None \<or>
               (\<exists>d\<in>set (ms_items service). mark_fails (Repository bh) service d)"
  shows "(\<exists>err tr. runGCCycle bh s = (Some err, s, tr) \<and>
            removed_manifests tr = [] \<and> removed_blobs tr = []) \<and>
         (\<forall>d e arr ms t. Lookup (Tags (Repository bh)) d = Inl e \<longrightarrow>
            (\<exists>err t'. markCallback (Repository bh) service d (arr, ms, t) = (Some err, arr, ms, t')))"
proof
  obtain r s' tr where run: "runGCCycle bh s = (r, s', tr)"
    by (metis prod_cases3)
  have failed: False
    if mk: "markAllManifests bh service ([], {}, []) = (None, arr, ms, mtr)" for arr ms mtr
    using markAllManifests_ok [OF mk] fail mark_fails_not_ok by blast
  from run show "\<exists>err tr. runGCCycle bh s = (Some err, s, tr) \<and>
            removed_manifests tr = [] \<and> removed_blobs tr = []"
  proof (cases rule: runGCCycle_cases)
    case (construct err)
    with svc show ?thesis by simp
  next
    case (mark_failed service' err arr ms)
    with svc have "markAllManifests bh service ([], {}, []) = (Some err, arr, ms, tr)" by simp
    from markAllManifests_trace [OF this]
    have "removed_manifests tr = [] \<and> removed_blobs tr = []"
      by (auto simp: projection_simps)
    with run mark_failed show ?thesis by simp
  next
    case (remove_failed service' arr ms mtr err)
    with svc failed show ?thesis by simp
  next
    case (swept service' arr ms mtr s1 tr1)
    with svc failed show ?thesis by simp
  qed
next
  show "\<forall>d e arr ms t. Lookup (Tags (Repository bh)) d = Inl e \<longrightarrow>
            (\<exists>err t'. markCallback (Repository bh) service d (arr, ms, t) = (Some err, arr, ms, t'))"
    using markCallback_lookup_error by blast
qed

theorem mark_failure_aborts_witness:
  "mark_fails (Repository brokenContext) (manifestsOf appManifests) ''B''
   \<and> runGCCycle brokenContext appStorage =
       (Some ''failed to mark all manifests: failed to retrieve tags for digest B: driver failure'',
        appStorage,
        [TagsLookup ''app'' ''A'', TagsAll ''app'', TagsLookup ''app'' ''B''])"
proof -
  have svc: "Manifests (Repository brokenContext) = Inr (manifestsOf appManifests)"
    by (simp add: fixture_defs)
  have mf: "mark_fails (Repository brokenContext) (manifestsOf appManifests) ''B''"
    by (simp add: fixture_defs mark_fails_def)
  have fail: "\<not> isEnumerator (manifestsOf appManifests) \<or> ms_fail (manifestsOf appManifests) \<noteq> None \<or>
      (\<exists>d\<in>set (ms_items (manifestsOf appManifests)).
          mark_fails (Repository brokenContext) (manifestsOf appManifests) d)"
    by (simp add: fixture_defs mark_fails_def)
  from mark_failure_aborts [OF svc fail, of appStorage] mf show ?thesis
    by (simp add: fixture_defs gc_defs)
qed

text \<open>
  C4. The calls of a cycle are the reads of the mark phase followed by the
  removals: no read follows a removal, and when any removal was requested the
  reads are those of a mark phase that completed without error over every
  digest the manifest enumerator yields.
\<close>

theorem no_deletion_before_mark_completes:
  assumes run: "runGCCycle bh s = (r, s', tr)"
  shows "\<exists>reads deletions. tr = reads @ deletions \<and>
           (\<forall>e\<in>set reads. \<not> is_deletion e) \<and> (\<forall>e\<in>set deletions. is_deletion e) \<and>
           (deletions \<noteq> [] \<longrightarrow>
              (\<exists>service manifestArr markSet.
                  Manifests (Repository bh) = Inr service \<and>
                  markAllManifests bh service ([], {}, []) = (None, manifestArr, markSet, reads) \<and>
                  looked_up reads = ms_items service))"
  using run
proof (cases rule: runGCCycle_cases)
  case (construct err)
  then have "tr = [] @ []" by simp
  then show ?thesis by fastforce
next
  case (mark_failed service err arr ms)
  from markAllManifests_trace [OF mark_failed(2)] have "\<forall>e\<in>set tr. \<not> is_deletion e"
    using mark_trace_no_deletion by blast
  moreover have "tr = tr @ []" by simp
  ultimately show ?thesis by (metis empty_iff list.set(1))
next
  case (remove_failed service arr ms mtr err)
  note ok = markAllManifests_ok [OF remove_failed(2)]
  from removeManifests_trace [OF remove_failed(3)] obtain k where
    k: "tr = mtr @ map rm_event (take k arr)" by blast
  from ok have reads: "\<forall>e\<in>set mtr. \<not> is_deletion e" "looked_up mtr = ms_items service"
    using mark_trace_no_deletion by (auto simp: projection_simps)
  have dels: "\<forall>e\<in>set (map rm_event (take k arr)). is_deletion e"
    using rm_events_deletions by blast
  from k reads dels remove_failed(1,2) show ?thesis by blast
next
  case (swept service arr ms mtr s1 tr1)
  note ok = markAllManifests_ok [OF swept(2)]
  from removeManifests_trace [OF swept(3)] have tr1: "tr1 = mtr @ map rm_event arr" by auto
  from sweepBlobs_trace [OF swept(4)] obtain bl where
    bl: "tr = tr1 @ map (VacuumRemoveRepositoryBlob (Named (Repository bh))) bl"
    by blast
  from ok have reads: "\<forall>e\<in>set mtr. \<not> is_deletion e" "looked_up mtr = ms_items service"
    using mark_trace_no_deletion by (auto simp: projection_simps)
  have dels: "\<forall>e\<in>set (map rm_event arr @
      map (VacuumRemoveRepositoryBlob (Named (Repository bh))) bl). is_deletion e"
    using rm_events_deletions by auto
  from bl tr1 have "tr = mtr @ (map rm_event arr @
      map (VacuumRemoveRepositoryBlob (Named (Repository bh))) bl)"
    by simp
  with reads dels swept(1,2) show ?thesis by blast
qed

theorem no_deletion_before_mark_completes_witness:
  "runGCCycle appContext appStorage =
     (None, [''A'', ''b1'', ''b2''],
      [TagsLookup ''app'' ''A'', ManifestGet ''app'' ''A'', TagsLookup ''app'' ''B'',
       TagsAll ''app''] @
      [VacuumRemoveManifest ''app'' ''B'' [''latest''], VacuumRemoveRepositoryBlob ''app'' ''b3''])
   \<and> looked_up [TagsLookup ''app'' ''A'', ManifestGet ''app'' ''A'', TagsLookup ''app'' ''B'',
       TagsAll ''app''] = ms_items (manifestsOf appManifests)"
proof -
  have run: "runGCCycle appContext appStorage =
     (None, [''A'', ''b1'', ''b2''],
      [TagsLookup ''app'' ''A'', ManifestGet ''app'' ''A'', TagsLookup ''app'' ''B'',
       TagsAll ''app'', VacuumRemoveManifest ''app'' ''B'' [''latest''],
       VacuumRemoveRepositoryBlob ''app'' ''b3''])"
    by (simp add: fixture_defs gc_defs)
  have lk: "looked_up [TagsLookup ''app'' ''A'', ManifestGet ''app'' ''A'',
       TagsLookup ''app'' ''B'', TagsAll ''app''] = ms_items (manifestsOf appManifests)"
    by (simp add: fixture_defs)
  from no_deletion_before_mark_completes [OF run] run lk show ?thesis by simp
qed


text \<open>
  C5, where the code departs from it. The vacuum fails to remove the repository
  blob b1, the callback of the blob enumeration drops that error, and the cycle
  reports success; the handler then answers with status 200.
\<close>

theorem blob_removal_failure_swallowed:
  "RemoveRepositoryBlob (NewVacuum stuckContext) ''app'' ''b1'' [''b1''] =
     (Some ''driver failure'', [''b1''])
   \<and> runGCCycle stuckContext [''b1''] =
       (None, [''b1''], [VacuumRemoveRepositoryBlob ''app'' ''b1''])
   \<and> rw_status (fst (Recycle stuckContext emptyResponse [''b1''])) = Some 200"
  by (simp add: fixture_defs gc_defs Recycle_def emptyResponse_def WriteHeader_def
      Header_Set_def StatusOK_def)

text \<open>
  C6, as the code has it. After the manifest removals have all succeeded, the
  blob removal is requested for exactly the digests that a scoped repository
  blob enumerator yields and that are absent from the mark set, in the order of
  the enumeration; when the repository has no blob enumerator or the enumerator
  is not scoped, no blob removal is requested at all.
\<close>

theorem blob_sweep_scoped_only:
  assumes run: "runGCCycle bh s = (r, s', tr)"
    and svc: "Manifests (Repository bh) = Inr service"
    and mk: "markAllManifests bh service ([], {}, []) = (None, manifestArr, markSet, mtr)"
    and rm: "removeManifests (NewVacuum bh) manifestArr (s, mtr) = (None, s1, tr1)"
  shows "tr = tr1 @ map (VacuumRemoveRepositoryBlob (Named (Repository bh))) (removed_blobs tr) \<and>
         removed_blobs tr =
           (case RepositoryBlobsEnumerator (Repository bh) of
              None \<Rightarrow> []
            | Some b \<Rightarrow>
                if IsScopped b then filter (\<lambda>d. d \<notin> markSet) (be_items b s1) else [])"
proof -
  define bl where "bl =
    (case RepositoryBlobsEnumerator (Repository bh) of
       None \<Rightarrow> []
     | Some b \<Rightarrow> if IsScopped b then filter (\<lambda>d. d \<notin> markSet) (be_items b s1) else [])"
  from run svc mk rm
  have sw: "sweepBlobs bh (RepositoryBlobsEnumerator (Repository bh)) markSet (s1, tr1) = (r, s', tr)"
    by (simp add: runGCCycle_def)
  from sweepBlobs_trace [OF sw]
  have tr: "tr = tr1 @ map (VacuumRemoveRepositoryBlob (Named (Repository bh))) bl"
    by (simp add: bl_def)
  from removeManifests_trace [OF rm] have tr1: "tr1 = mtr @ map rm_event manifestArr" by auto
  from markAllManifests_ok [OF mk] have "removed_blobs mtr = []"
    by (simp add: projection_simps)
  with tr tr1 have "removed_blobs tr = bl" by (simp add: projection_simps)
  with tr show ?thesis by (simp add: bl_def)
qed

theorem blob_sweep_scoped_only_witness:
  "runGCCycle appContext appStorage =
     (None, [''A'', ''b1'', ''b2''],
      [TagsLookup ''app'' ''A'', ManifestGet ''app'' ''A'', TagsLookup ''app'' ''B'',
       TagsAll ''app'', VacuumRemoveManifest ''app'' ''B'' [''latest''],
       VacuumRemoveRepositoryBlob ''app'' ''b3''])
   \<and> removed_blobs [TagsLookup ''app'' ''A'', ManifestGet ''app'' ''A'', TagsLookup ''app'' ''B'',
       TagsAll ''app'', VacuumRemoveManifest ''app'' ''B'' [''latest''],
       VacuumRemoveRepositoryBlob ''app'' ''b3'']
     = filter (\<lambda>d. d \<notin> {''A'', ''b1'', ''b2''}) [''A'', ''b1'', ''b2'', ''b3'']"
proof -
  have run: "runGCCycle appContext appStorage =
     (None, [''A'', ''b1'', ''b2''],
      [TagsLookup ''app'' ''A'', ManifestGet ''app'' ''A'', TagsLookup ''app'' ''B'',
       TagsAll ''app'', VacuumRemoveManifest ''app'' ''B'' [''latest''],
       VacuumRemoveRepositoryBlob ''app'' ''b3''])"
    by (simp add: fixture_defs gc_defs)
  have svc: "Manifests (Repository appContext) = Inr (manifestsOf appManifests)"
    by (simp add: fixture_defs)
  have mk: "markAllManifests appContext (manifestsOf appManifests) ([], {}, []) =
     (None, [\<lparr>md_Name = ''app'', md_Digest = ''B'', md_Tags = [''latest'']\<rparr>],
      {''A'', ''b1'', ''b2''},
      [TagsLookup ''app'' ''A'', ManifestGet ''app'' ''A'', TagsLookup ''app'' ''B'', TagsAll ''app''])"
    by (simp add: fixture_defs gc_defs insert_commute)
  have rm: "removeManifests (NewVacuum appContext)
      [\<lparr>md_Name = ''app'', md_Digest = ''B'', md_Tags = [''latest'']\<rparr>]
      (appStorage,
       [TagsLookup ''app'' ''A'', ManifestGet ''app'' ''A'', TagsLookup ''app'' ''B'', TagsAll ''app''])
     = (None, [''A'', ''b1'', ''b2'', ''b3''],
        [TagsLookup ''app'' ''A'', ManifestGet ''app'' ''A'', TagsLookup ''app'' ''B'',
         TagsAll ''app'', VacuumRemoveManifest ''app'' ''B'' [''latest'']])"
    by (simp add: fixture_defs)
  have sc: "RepositoryBlobsEnumerator (Repository appContext) = Some (blobsOf True)"
    by (simp add: fixture_defs)
  from blob_sweep_scoped_only [OF run svc mk rm] run sc show ?thesis
    by (simp add: blobsOf_def)
qed

text \<open>
  C6 as stated fails on the global store: the blob enumerator of the repository
  is not scoped, it yields b3, b3 is not marked, and no blob removal is
  requested; b3 is still stored after the cycle.
\<close>

theorem global_store_not_swept:
  "RepositoryBlobsEnumerator (Repository globalContext) = Some (blobsOf False)
   \<and> \<not> IsScopped (blobsOf False)
   \<and> ''b3'' \<in> set (be_items (blobsOf False) appStorage)
   \<and> runGCCycle globalContext appStorage =
       (None, [''A'', ''b1'', ''b2'', ''b3''],
        [TagsLookup ''app'' ''A'', ManifestGet ''app'' ''A'', TagsLookup ''app'' ''B'',
         TagsAll ''app'', VacuumRemoveManifest ''app'' ''B'' [''latest'']])"
  by (simp add: fixture_defs gc_defs)

text \<open>
  C7, as the code has it. The mark phase enumerates the manifests of the one
  repository the handler was built for: the digests looked up are a prefix of
  what that repository's manifest enumerator yields, and all of them when the
  mark phase completes.
\<close>

theorem mark_enumerates_own_repository:
  assumes run: "runGCCycle bh s = (r, s', tr)"
    and svc: "Manifests (Repository bh) = Inr service"
  shows "(\<exists>k\<le>length (ms_items service). looked_up tr = take k (ms_items service)) \<and>
         (fst (markAllManifests bh service ([], {}, [])) = None \<longrightarrow>
            looked_up tr = ms_items service)"
  using run
proof (cases rule: runGCCycle_cases)
  case (construct err)
  with svc show ?thesis by simp
next
  case (mark_failed service' err arr ms)
  with svc have mk: "markAllManifests bh service ([], {}, []) = (Some err, arr, ms, tr)" by simp
  from markAllManifests_trace [OF mk] obtain k where
    "k \<le> length (ms_items service)"
    "tr = concat (map (mark_events (Repository bh)) (take k (ms_items service)))"
    by blast
  then have "k \<le> length (ms_items service) \<and> looked_up tr = take k (ms_items service)"
    by (simp add: projection_simps)
  with mk show ?thesis by auto
next
  case (remove_failed service' arr ms mtr err)
  with svc have mk: "markAllManifests bh service ([], {}, []) = (None, arr, ms, mtr)" by simp
  from markAllManifests_ok [OF mk] have "looked_up mtr = ms_items service"
    by (simp add: projection_simps)
  moreover from removeManifests_trace [OF remove_failed(3)] obtain k where
    "tr = mtr @ map rm_event (take k arr)" by blast
  ultimately have "looked_up tr = ms_items service"
    by (simp add: projection_simps)
  then have "length (ms_items service) \<le> length (ms_items service) \<and>
      looked_up tr = take (length (ms_items service)) (ms_items service)"
    by simp
  with \<open>looked_up tr = ms_items service\<close> show ?thesis by blast
next
  case (swept service' arr ms mtr s1 tr1)
  with svc have mk: "markAllManifests bh service ([], {}, []) = (None, arr, ms, mtr)" by simp
  from markAllManifests_ok [OF mk] have "looked_up mtr = ms_items service"
    by (simp add: projection_simps)
  moreover from removeManifests_trace [OF swept(3)] have "tr1 = mtr @ map rm_event arr" by auto
  moreover from sweepBlobs_trace [OF swept(4)] obtain bl where
    "tr = tr1 @ map (VacuumRemoveRepositoryBlob (Named (Repository bh))) bl" by blast
  ultimately have all: "looked_up tr = ms_items service"
    by (simp add: projection_simps)
  then have "length (ms_items service) \<le> length (ms_items service) \<and>
      looked_up tr = take (length (ms_items service)) (ms_items service)"
    by simp
  with all show ?thesis by blast
qed

theorem mark_enumerates_own_repository_witness:
  "Manifests (Repository appContext) = Inr (manifestsOf appManifests)
   \<and> fst (markAllManifests appContext (manifestsOf appManifests) ([], {}, [])) = None
   \<and> looked_up (snd (snd (runGCCycle appContext appStorage))) = [''A'', ''B'']
   \<and> ms_items (manifestsOf appManifests) = [''A'', ''B'']"
proof -
  have run: "runGCCycle appContext appStorage =
     (None, [''A'', ''b1'', ''b2''],
      [TagsLookup ''app'' ''A'', ManifestGet ''app'' ''A'', TagsLookup ''app'' ''B'',
       TagsAll ''app'', VacuumRemoveManifest ''app'' ''B'' [''latest''],
       VacuumRemoveRepositoryBlob ''app'' ''b3''])"
    by (simp add: fixture_defs gc_defs)
  have svc: "Manifests (Repository appContext) = Inr (manifestsOf appManifests)"
    by (simp add: fixture_defs)
  have mk: "fst (markAllManifests appContext (manifestsOf appManifests) ([], {}, [])) = None"
    by (simp add: fixture_defs gc_defs)
  have items: "ms_items (manifestsOf appManifests) = [''A'', ''B'']"
    by (simp add: fixture_defs)
  from mark_enumerates_own_repository [OF run svc] run svc mk items show ?thesis by simp
qed

text \<open>
  C7 as stated fails: the namespace holds the repositories app and other, the
  manifest M belongs to other, and a cycle run for app looks up A and B only.
\<close>

theorem other_repository_not_enumerated:
  "namespace_manifests [Repository appContext, Repository otherContext] = [''A'', ''B'', ''M'']
   \<and> looked_up (snd (snd (runGCCycle appContext appStorage))) = [''A'', ''B'']
   \<and> fst (runGCCycle appContext appStorage) = None"
  by (simp add: fixture_defs gc_defs namespace_manifests_def)


section \<open>The maintenance trigger\<close>

text \<open>
  The dispatcher registers a handler for DELETE and for nothing else, and only
  when the registry is not read-only; the handler is Recycle, which runs the
  cycle once and, on a response not yet started, answers with Content-Length 0,
  status 200 and no body when the cycle returns nil, and with status 500 and
  the error text as body when the cycle returns an error. The storage and the
  calls of the handler are those of the cycle.
\<close>

lemma Recycle_answers:
  "(housekeepingDispatcher ctx m \<noteq> None \<longleftrightarrow> m = ''DELETE'' \<and> \<not> readOnly ctx) \<and>
   (\<not> readOnly ctx \<longrightarrow> housekeepingDispatcher ctx ''DELETE'' = Some (Recycle ctx)) \<and>
   (rw_status w = None \<longrightarrow>
      (case runGCCycle ctx s of
         (None, s', tr) \<Rightarrow>
           Recycle ctx w s =
             (w\<lparr>rw_header := (rw_header w)(''Content-Length'' \<mapsto> ''0''),
                rw_status := Some 200\<rparr>, s', tr)
       | (Some err, s', tr) \<Rightarrow>
           Recycle ctx w s = (w\<lparr>rw_status := Some 500, rw_body := rw_body w @ err\<rparr>, s', tr)))"
proof (intro conjI impI)
  show "housekeepingDispatcher ctx m \<noteq> None \<longleftrightarrow> m = ''DELETE'' \<and> \<not> readOnly ctx"
    by (simp add: housekeepingDispatcher_def)
  show "housekeepingDispatcher ctx ''DELETE'' = Some (Recycle ctx)" if "\<not> readOnly ctx"
    using that by (simp add: housekeepingDispatcher_def)
  show "case runGCCycle ctx s of
         (None, s', tr) \<Rightarrow>
           Recycle ctx w s =
             (w\<lparr>rw_header := (rw_header w)(''Content-Length'' \<mapsto> ''0''),
                rw_status := Some 200\<rparr>, s', tr)
       | (Some err, s', tr) \<Rightarrow>
           Recycle ctx w s = (w\<lparr>rw_status := Some 500, rw_body := rw_body w @ err\<rparr>, s', tr)"
    if "rw_status w = None"
    using that
    by (auto simp: Recycle_def Write_def WriteHeader_def Header_Set_def StatusOK_def
        StatusInternalServerError_def split: prod.splits option.splits)
qed

lemma Recycle_answers_examples:
  "housekeepingDispatcher appContext ''DELETE'' = Some (Recycle appContext)
   \<and> housekeepingDispatcher readOnlyContext ''DELETE'' = None
   \<and> rw_status (fst (Recycle appContext emptyResponse appStorage)) = Some 200
   \<and> rw_header (fst (Recycle appContext emptyResponse appStorage)) ''Content-Length'' = Some ''0''
   \<and> rw_body (fst (Recycle appContext emptyResponse appStorage)) = []
   \<and> rw_status (fst (Recycle brokenContext emptyResponse appStorage)) = Some 500
   \<and> rw_body (fst (Recycle brokenContext emptyResponse appStorage)) =
       ''failed to mark all manifests: failed to retrieve tags for digest B: driver failure''"
proof -
  have ok: "runGCCycle appContext appStorage =
     (None, [''A'', ''b1'', ''b2''],
      [TagsLookup ''app'' ''A'', ManifestGet ''app'' ''A'', TagsLookup ''app'' ''B'',
       TagsAll ''app'', VacuumRemoveManifest ''app'' ''B'' [''latest''],
       VacuumRemoveRepositoryBlob ''app'' ''b3''])"
    by (simp add: fixture_defs gc_defs)
  have bad: "runGCCycle brokenContext appStorage =
       (Some ''failed to mark all manifests: failed to retrieve tags for digest B: driver failure'',
        appStorage,
        [TagsLookup ''app'' ''A'', TagsAll ''app'', TagsLookup ''app'' ''B''])"
    by (simp add: fixture_defs gc_defs)
  have rw: "\<not> readOnly appContext" "readOnly readOnlyContext" "rw_status emptyResponse = None"
    by (simp_all add: fixture_defs readOnlyContext_def emptyResponse_def)
  from Recycle_answers [of appContext "''DELETE''" emptyResponse appStorage]
    Recycle_answers [of readOnlyContext "''DELETE''" emptyResponse appStorage]
    Recycle_answers [of brokenContext "''DELETE''" emptyResponse appStorage]
    ok bad rw
  show ?thesis by (simp add: emptyResponse_def)
qed

text \<open>
  C8, where the code departs from it. The registry is not read-only, so the
  trigger is registered, and one pass runs: A and B are looked up, A is marked
  with b1 and b2, the untagged B is removed, and the sweep asks the vacuum to
  remove b3. That removal fails. The claim asks for a server-error status with
  the error text on any failure; the handler answers with status 200,
  Content-Length 0 and an empty body, and b3 is still stored. The cause is the
  dropped result of RemoveRepositoryBlob, the same as for C5.
\<close>

theorem failed_sweep_answers_success:
  "\<not> readOnly stuckAppContext
   \<and> housekeepingDispatcher stuckAppContext ''DELETE'' = Some (Recycle stuckAppContext)
   \<and> RemoveRepositoryBlob (NewVacuum stuckAppContext) ''app'' ''b3'' [''A'', ''b1'', ''b2'', ''b3''] =
       (Some ''driver failure'', [''A'', ''b1'', ''b2'', ''b3''])
   \<and> snd (Recycle stuckAppContext emptyResponse appStorage) =
       ([''A'', ''b1'', ''b2'', ''b3''],
        [TagsLookup ''app'' ''A'', ManifestGet ''app'' ''A'', TagsLookup ''app'' ''B'',
         TagsAll ''app'', VacuumRemoveManifest ''app'' ''B'' [''latest''],
         VacuumRemoveRepositoryBlob ''app'' ''b3''])
   \<and> rw_status (fst (Recycle stuckAppContext emptyResponse appStorage)) = Some 200
   \<and> rw_header (fst (Recycle stuckAppContext emptyResponse appStorage)) ''Content-Length'' =
       Some ''0''
   \<and> rw_body (fst (Recycle stuckAppContext emptyResponse appStorage)) = []"
proof -
  have run: "runGCCycle stuckAppContext appStorage =
     (None, [''A'', ''b1'', ''b2'', ''b3''],
      [TagsLookup ''app'' ''A'', ManifestGet ''app'' ''A'', TagsLookup ''app'' ''B'',
       TagsAll ''app'', VacuumRemoveManifest ''app'' ''B'' [''latest''],
       VacuumRemoveRepositoryBlob ''app'' ''b3''])"
    by (simp add: fixture_defs gc_defs)
  have reg: "\<not> readOnly stuckAppContext"
      "housekeepingDispatcher stuckAppContext ''DELETE'' = Some (Recycle stuckAppContext)"
    by (simp_all add: fixture_defs housekeepingDispatcher_def)
  have rm: "RemoveRepositoryBlob (NewVacuum stuckAppContext) ''app'' ''b3''
      [''A'', ''b1'', ''b2'', ''b3''] = (Some ''driver failure'', [''A'', ''b1'', ''b2'', ''b3''])"
    by (simp add: fixture_defs)
  from run have "Recycle stuckAppContext emptyResponse appStorage =
     (WriteHeader StatusOK (Header_Set ''Content-Length'' ''0'' emptyResponse),
      [''A'', ''b1'', ''b2'', ''b3''],
      [TagsLookup ''app'' ''A'', ManifestGet ''app'' ''A'', TagsLookup ''app'' ''B'',
       TagsAll ''app'', VacuumRemoveManifest ''app'' ''B'' [''latest''],
       VacuumRemoveRepositoryBlob ''app'' ''b3''])"
    by (simp add: Recycle_def)
  with reg rm show ?thesis
    by (simp add: WriteHeader_def Header_Set_def StatusOK_def emptyResponse_def)
qed

section \<open>Registry construction\<close>

lemma applyOptions_append:
  "applyOptions (xs @ ys) st =
     (case applyOptions xs st of Inl err \<Rightarrow> Inl err | Inr st' \<Rightarrow> applyOptions ys st')"
  by (induction xs arbitrary: st) (auto split: sum.splits)

text \<open>
  C9. Without options NewRegistry returns a registry with global blob storage
  enabled, repository blob storage, redirect, delete and schema1 disabled and
  digest resumption enabled. The options run in the order given, each on the
  registry the previous ones left, and the first option that returns an error
  makes NewRegistry return that error and no registry.
\<close>

theorem NewRegistry_defaults_and_options:
  "(\<exists>reg h'. NewRegistry h drv [] = Inr (reg, h') \<and>
      globalBlobStoreEnabled (h_options h' ! options reg) \<and>
      \<not> repositoryBlobStoreEnabled (h_options h' ! options reg) \<and>
      \<not> redirect (h_options h' ! options reg) \<and>
      \<not> deleteEnabled reg \<and> \<not> schema1Enabled reg \<and> resumableDigestEnabled reg) \<and>
   NewRegistry h drv (opts @ [opt]) =
     (case NewRegistry h drv opts of Inl err \<Rightarrow> Inl err | Inr st \<Rightarrow> opt st) \<and>
   (NewRegistry h drv opts = Inr st \<and> opt st = Inl err \<longrightarrow>
      NewRegistry h drv (opts @ opt # rest) = Inl err)"
proof (intro conjI impI)
  show "\<exists>reg h'. NewRegistry h drv [] = Inr (reg, h') \<and>
      globalBlobStoreEnabled (h_options h' ! options reg) \<and>
      \<not> repositoryBlobStoreEnabled (h_options h' ! options reg) \<and>
      \<not> redirect (h_options h' ! options reg) \<and>
      \<not> deleteEnabled reg \<and> \<not> schema1Enabled reg \<and> resumableDigestEnabled reg"
    by (simp add: NewRegistry_def initialRegistry_def Let_def)
  show "NewRegistry h drv (opts @ [opt]) =
     (case NewRegistry h drv opts of Inl err \<Rightarrow> Inl err | Inr st \<Rightarrow> opt st)"
    by (simp add: NewRegistry_def applyOptions_append split: sum.splits)
  show "NewRegistry h drv (opts @ opt # rest) = Inl err"
    if "NewRegistry h drv opts = Inr st \<and> opt st = Inl err"
    using that by (simp add: NewRegistry_def applyOptions_append)
qed

theorem NewRegistry_defaults_and_options_witness:
  "NewRegistry emptyHeap 0 [] = Inr globalSetup
   \<and> NewRegistry emptyHeap 0 [EnableDelete] =
       Inr ((fst globalSetup)\<lparr>deleteEnabled := True\<rparr>, snd globalSetup)
   \<and> failingOption ((fst globalSetup)\<lparr>deleteEnabled := True\<rparr>, snd globalSetup) = Inl ''bad option''
   \<and> NewRegistry emptyHeap 0 ([EnableDelete] @ failingOption # [EnableSchema1]) = Inl ''bad option''"
proof -
  have a: "NewRegistry emptyHeap 0 [] = Inr globalSetup"
    by (simp add: NewRegistry_def globalSetup_def)
  have b: "NewRegistry emptyHeap 0 [EnableDelete] =
       Inr ((fst globalSetup)\<lparr>deleteEnabled := True\<rparr>, snd globalSetup)"
    by (simp add: NewRegistry_def globalSetup_def EnableDelete_def)
  have c: "failingOption ((fst globalSetup)\<lparr>deleteEnabled := True\<rparr>, snd globalSetup) = Inl ''bad option''"
    by (simp add: failingOption_def)
  from NewRegistry_defaults_and_options
    [of emptyHeap 0 "[EnableDelete]" failingOption
      "((fst globalSetup)\<lparr>deleteEnabled := True\<rparr>, snd globalSetup)" "''bad option''"
      "[EnableSchema1]"] a b c
  show ?thesis by simp
qed


section \<open>Scoping of the blob stores\<close>

lemmas scoped_defs = scopedBlobStore_def scopedBlobStatter_def scopedBlobServer_def

lemma scopedBlobStore_global:
  "\<not> repositoryBlobStoreEnabled (h_options h ! options (repo_registry repo)) \<Longrightarrow>
     scopedBlobStore repo h = (globalBlobStore (repo_registry repo), h)"
  by (simp add: scopedBlobStore_def)

lemma scopedBlobServer_global:
  "\<not> repositoryBlobStoreEnabled (h_options h ! options (repo_registry repo)) \<Longrightarrow>
     scopedBlobServer repo h = (globalBlobServer (repo_registry repo), h)"
  by (simp add: scopedBlobServer_def)

lemma scopedBlobStore_scoped:
  assumes "repositoryBlobStoreEnabled (h_options h ! options (repo_registry repo))"
  shows "\<exists>h'. scopedBlobStore repo h = (length (h_stores h), h') \<and>
           heap_extends h h' \<and>
           fresh_scoped_store h h' (repo_name repo) (length (h_stores h)) \<and>
           length (h_stores h') = Suc (length (h_stores h)) \<and>
           h_servers h' = h_servers h"
  using assms
  by (simp add: scoped_defs heap_extends_def fresh_scoped_store_def nth_append)

lemma scopedBlobServer_scoped:
  assumes "repositoryBlobStoreEnabled (h_options h ! options (repo_registry repo))"
  shows "\<exists>h'. scopedBlobServer repo h = (length (h_servers h), h') \<and>
           heap_extends h h' \<and>
           length (h_servers h') = Suc (length (h_servers h)) \<and>
           fresh_scoped_store h h' (repo_name repo) (sv_pathFn (h_servers h' ! length (h_servers h))) \<and>
           sv_statter (h_servers h' ! length (h_servers h)) =
             bs_statter (h_stores h' ! sv_pathFn (h_servers h' ! length (h_servers h)))"
  using assms
  by (simp add: scoped_defs heap_extends_def fresh_scoped_store_def nth_append)

lemma heap_extends_lengths:
  assumes "heap_extends h h'"
  shows "length (h_statters h) \<le> length (h_statters h')"
    and "length (h_stores h) \<le> length (h_stores h')"
    and "length (h_servers h) \<le> length (h_servers h')"
proof -
  from assms have "length (take (length (h_statters h)) (h_statters h')) = length (h_statters h)"
    by (simp add: heap_extends_def)
  then show "length (h_statters h) \<le> length (h_statters h')" by simp
  from assms have "length (take (length (h_stores h)) (h_stores h')) = length (h_stores h)"
    by (simp add: heap_extends_def)
  then show "length (h_stores h) \<le> length (h_stores h')" by simp
  from assms have "length (take (length (h_servers h)) (h_servers h')) = length (h_servers h)"
    by (simp add: heap_extends_def)
  then show "length (h_servers h) \<le> length (h_servers h')" by simp
qed

lemma take_eq_nth: "take (length xs) ys = xs \<Longrightarrow> i < length xs \<Longrightarrow> ys ! i = xs ! i"
  by (metis nth_take)

lemma heap_extends_trans:
  assumes a: "heap_extends h h1" and b: "heap_extends h1 h2"
  shows "heap_extends h h2"
proof -
  have tk: "take (length xs) zs = xs"
    if "take (length xs) ys = xs" "take (length ys) zs = ys" for xs ys zs :: "'a list"
  proof -
    from that(1) have "length (take (length xs) ys) = length xs" by simp
    then have "length xs \<le> length ys" by simp
    then have "take (length xs) zs = take (length xs) (take (length ys) zs)"
      by (simp add: min_def)
    with that show ?thesis by simp
  qed
  from a b show ?thesis
    unfolding heap_extends_def by (auto intro: tk)
qed

text \<open>An object allocated in a heap keeps its address and its fields when the heap grows.\<close>

lemma fresh_scoped_store_later:
  assumes f: "fresh_scoped_store h h1 name a" and e: "heap_extends h1 h2"
  shows "fresh_scoped_store h h2 name a"
proof -
  from e have st: "take (length (h_stores h1)) (h_stores h2) = h_stores h1"
    and sa: "take (length (h_statters h1)) (h_statters h2) = h_statters h1"
    by (simp_all add: heap_extends_def)
  from f have a: "length (h_stores h) \<le> a" "a < length (h_stores h1)"
    by (simp_all add: fresh_scoped_store_def)
  from take_eq_nth [OF st a(2)] have same: "h_stores h2 ! a = h_stores h1 ! a" .
  from a heap_extends_lengths(2) [OF e] have a2: "a < length (h_stores h2)" by simp
  show ?thesis
  proof (cases "bs_statter (h_stores h1 ! a)")
    case (Statter sa')
    with f have s: "length (h_statters h) \<le> sa'" "sa' < length (h_statters h1)"
        "st_repositoryScope (h_statters h1 ! sa') = name"
        "bs_repositoryScope (h_stores h1 ! a) = name"
      by (simp_all add: fresh_scoped_store_def)
    from take_eq_nth [OF sa s(2)] have "h_statters h2 ! sa' = h_statters h1 ! sa'" .
    moreover from s(2) heap_extends_lengths(1) [OF e] have "sa' < length (h_statters h2)" by simp
    ultimately show ?thesis
      using a a2 same s Statter by (simp add: fresh_scoped_store_def)
  next
    case (CachedBlobStatter p sa')
    with f show ?thesis by (simp add: fresh_scoped_store_def)
  qed
qed

lemma fresh_scoped_store_earlier:
  assumes e: "heap_extends h h1" and f: "fresh_scoped_store h1 h2 name a"
  shows "fresh_scoped_store h h2 name a"
  using f heap_extends_lengths [OF e]
  by (auto simp: fresh_scoped_store_def split: statter.splits)

lemma heap_extends_options: "heap_extends h h' \<Longrightarrow> h_options h' = h_options h"
  by (simp add: heap_extends_def)

lemma services_global:
  assumes "\<not> repositoryBlobStoreEnabled (h_options h ! options (repo_registry repo))"
  shows "repository_Tags repo h =
           (\<lparr>ts_repository = repo_name repo,
             ts_blobStore = globalBlobStore (repo_registry repo)\<rparr>, h)"
    and "\<exists>ms. repository_Manifests repo [] h = (Inr ms, h) \<and>
           lbs_blobStore (mst_blobStore ms) = globalBlobStore (repo_registry repo)"
    and "\<exists>bs. repository_Blobs repo h = (bs, h) \<and>
           lbs_blobStore bs = globalBlobStore (repo_registry repo) \<and>
           lbs_blobServer bs = Some (globalBlobServer (repo_registry repo))"
  using assms
  by (simp_all add: repository_Tags_def repository_Manifests_def repository_Blobs_def
      scopedBlobStore_global scopedBlobServer_global)

lemma Tags_scoped:
  assumes en: "repositoryBlobStoreEnabled (h_options h ! options (repo_registry repo))"
  shows "\<exists>ts h'. repository_Tags repo h = (ts, h') \<and> heap_extends h h' \<and>
           ts_blobStore ts = length (h_stores h) \<and>
           length (h_stores h') = Suc (length (h_stores h)) \<and>
           fresh_scoped_store h h' (repo_name repo) (ts_blobStore ts)"
proof -
  from scopedBlobStore_scoped [OF en] obtain h' where
    "scopedBlobStore repo h = (length (h_stores h), h')" "heap_extends h h'"
    "fresh_scoped_store h h' (repo_name repo) (length (h_stores h))"
    "length (h_stores h') = Suc (length (h_stores h))"
    by blast
  then show ?thesis by (simp add: repository_Tags_def)
qed

lemma Manifests_scoped:
  assumes en: "repositoryBlobStoreEnabled (h_options h ! options (repo_registry repo))"
  shows "\<exists>ms h'. repository_Manifests repo [] h = (Inr ms, h') \<and> heap_extends h h' \<and>
           fresh_scoped_store h h' (repo_name repo) (lbs_blobStore (mst_blobStore ms))"
proof -
  from scopedBlobStore_scoped [OF en] obtain h' where
    "scopedBlobStore repo h = (length (h_stores h), h')" "heap_extends h h'"
    "fresh_scoped_store h h' (repo_name repo) (length (h_stores h))"
    by blast
  then show ?thesis by (simp add: repository_Manifests_def)
qed

lemma Blobs_scoped:
  assumes en: "repositoryBlobStoreEnabled (h_options h ! options (repo_registry repo))"
  shows "\<exists>bs srv h'. repository_Blobs repo h = (bs, h') \<and> heap_extends h h' \<and>
           fresh_scoped_store h h' (repo_name repo) (lbs_blobStore bs) \<and>
           lbs_blobServer bs = Some srv \<and>
           length (h_servers h) \<le> srv \<and> srv < length (h_servers h') \<and>
           fresh_scoped_store h h' (repo_name repo) (sv_pathFn (h_servers h' ! srv)) \<and>
           sv_statter (h_servers h' ! srv) = bs_statter (h_stores h' ! sv_pathFn (h_servers h' ! srv))"
proof -
  from scopedBlobStore_scoped [OF en] obtain h1 where
    st: "scopedBlobStore repo h = (length (h_stores h), h1)" "heap_extends h h1"
      "fresh_scoped_store h h1 (repo_name repo) (length (h_stores h))"
      "h_servers h1 = h_servers h"
    by blast
  from en st(2) have en1: "repositoryBlobStoreEnabled (h_options h1 ! options (repo_registry repo))"
    by (simp add: heap_extends_options)
  from scopedBlobServer_scoped [OF en1] obtain h2 where
    sv: "scopedBlobServer repo h1 = (length (h_servers h1), h2)" "heap_extends h1 h2"
      "length (h_servers h2) = Suc (length (h_servers h1))"
      "fresh_scoped_store h1 h2 (repo_name repo) (sv_pathFn (h_servers h2 ! length (h_servers h1)))"
      "sv_statter (h_servers h2 ! length (h_servers h1)) =
         bs_statter (h_stores h2 ! sv_pathFn (h_servers h2 ! length (h_servers h1)))"
    by blast
  let ?bs = "\<lparr>lbs_blobStore = length (h_stores h),
           lbs_blobServer = Some (length (h_servers h1)),
           lbs_repository = repo_name repo,
           lbs_deleteEnabled = deleteEnabled (repo_registry repo),
           lbs_resumableDigestEnabled = resumableDigestEnabled (repo_registry repo),
           lbs_linkPathFns = [blobLinkPath]\<rparr>"
  from st(1) sv(1) have run: "repository_Blobs repo h = (?bs, h2)"
    by (simp add: repository_Blobs_def)
  have ext: "heap_extends h h2" using st(2) sv(2) by (rule heap_extends_trans)
  have f1: "fresh_scoped_store h h2 (repo_name repo) (lbs_blobStore ?bs)"
    using fresh_scoped_store_later [OF st(3) sv(2)] by simp
  have f2: "fresh_scoped_store h h2 (repo_name repo) (sv_pathFn (h_servers h2 ! length (h_servers h1)))"
    using fresh_scoped_store_earlier [OF st(2) sv(4)] .
  from st(4) sv(3) have rng: "length (h_servers h) \<le> length (h_servers h1)"
      "length (h_servers h1) < length (h_servers h2)"
    by simp_all
  from run ext f1 f2 rng sv(5) show ?thesis by simp
qed

lemma Tags_not_shared:
  assumes en: "repositoryBlobStoreEnabled (h_options h ! options (repo_registry repo))"
    and same: "repo_registry repo2 = repo_registry repo"
    and t1: "repository_Tags repo h = (ts1, h1)"
    and t2: "repository_Tags repo2 h1 = (ts2, h2)"
  shows "ts_blobStore ts1 \<noteq> ts_blobStore ts2 \<and>
         bs_repositoryScope (h_stores h2 ! ts_blobStore ts1) = repo_name repo \<and>
         bs_repositoryScope (h_stores h2 ! ts_blobStore ts2) = repo_name repo2"
proof -
  from Tags_scoped [OF en] t1 have a: "heap_extends h h1" "ts_blobStore ts1 = length (h_stores h)"
      "length (h_stores h1) = Suc (length (h_stores h))"
      "fresh_scoped_store h h1 (repo_name repo) (ts_blobStore ts1)"
    by auto
  from en a(1) same
  have en1: "repositoryBlobStoreEnabled (h_options h1 ! options (repo_registry repo2))"
    by (simp add: heap_extends_options)
  from Tags_scoped [OF en1] t2 have b: "heap_extends h1 h2"
      "ts_blobStore ts2 = length (h_stores h1)"
      "fresh_scoped_store h1 h2 (repo_name repo2) (ts_blobStore ts2)"
    by auto
  from fresh_scoped_store_later [OF a(4) b(1)]
  have "bs_repositoryScope (h_stores h2 ! ts_blobStore ts1) = repo_name repo"
    by (simp add: fresh_scoped_store_def)
  moreover from b(3) have "bs_repositoryScope (h_stores h2 ! ts_blobStore ts2) = repo_name repo2"
    by (simp add: fresh_scoped_store_def)
  moreover from a(2,3) b(2) have "ts_blobStore ts1 \<noteq> ts_blobStore ts2" by simp
  ultimately show ?thesis by blast
qed

lemma NewRegistry_globals:
  "\<exists>reg h'. NewRegistry h drv [] = Inr (reg, h') \<and>
      globalBlobStore reg = length (h_stores h) \<and>
      globalStatter reg = length (h_statters h) \<and>
      globalBlobServer reg = length (h_servers h) \<and>
      bs_statter (h_stores h' ! globalBlobStore reg) = Statter (globalStatter reg) \<and>
      sv_statter (h_servers h' ! globalBlobServer reg) = Statter (globalStatter reg) \<and>
      sv_pathFn (h_servers h' ! globalBlobServer reg) = globalBlobStore reg"
  by (simp add: NewRegistry_def initialRegistry_def Let_def)

text \<open>
  C10. With repository blob storage disabled, Tags, Manifests and Blobs of any
  repository return services on the registry's global blob store (and, for
  Blobs, its global blob server) and allocate nothing; these are the store,
  statter and server that NewRegistry allocated. With it enabled, every call
  allocates a blob store and a statter (and Blobs a server on a further such
  store) that did not exist before the call and whose scope is the name of the
  repository, leaving the existing objects as they were; so two calls, for the
  same or for different repositories, never return the same scoped store.
\<close>

theorem scoped_stores_invariant:
  "(\<exists>reg h'. NewRegistry h drv [] = Inr (reg, h') \<and>
      globalBlobStore reg = length (h_stores h) \<and>
      globalStatter reg = length (h_statters h) \<and>
      globalBlobServer reg = length (h_servers h) \<and>
      bs_statter (h_stores h' ! globalBlobStore reg) = Statter (globalStatter reg) \<and>
      sv_statter (h_servers h' ! globalBlobServer reg) = Statter (globalStatter reg) \<and>
      sv_pathFn (h_servers h' ! globalBlobServer reg) = globalBlobStore reg) \<and>
   (\<not> repositoryBlobStoreEnabled (h_options h ! options (repo_registry repo)) \<longrightarrow>
      repository_Tags repo h =
        (\<lparr>ts_repository = repo_name repo,
          ts_blobStore = globalBlobStore (repo_registry repo)\<rparr>, h) \<and>
      (\<exists>ms. repository_Manifests repo [] h = (Inr ms, h) \<and>
         lbs_blobStore (mst_blobStore ms) = globalBlobStore (repo_registry repo)) \<and>
      (\<exists>bs. repository_Blobs repo h = (bs, h) \<and>
         lbs_blobStore bs = globalBlobStore (repo_registry repo) \<and>
         lbs_blobServer bs = Some (globalBlobServer (repo_registry repo)))) \<and>
   (repositoryBlobStoreEnabled (h_options h ! options (repo_registry repo)) \<longrightarrow>
      (\<exists>ts h'. repository_Tags repo h = (ts, h') \<and> heap_extends h h' \<and>
         fresh_scoped_store h h' (repo_name repo) (ts_blobStore ts)) \<and>
      (\<exists>ms h'. repository_Manifests repo [] h = (Inr ms, h') \<and> heap_extends h h' \<and>
         fresh_scoped_store h h' (repo_name repo) (lbs_blobStore (mst_blobStore ms))) \<and>
      (\<exists>bs srv h'. repository_Blobs repo h = (bs, h') \<and> heap_extends h h' \<and>
         fresh_scoped_store h h' (repo_name repo) (lbs_blobStore bs) \<and>
         lbs_blobServer bs = Some srv \<and>
         length (h_servers h) \<le> srv \<and> srv < length (h_servers h') \<and>
         fresh_scoped_store h h' (repo_name repo) (sv_pathFn (h_servers h' ! srv)) \<and>
         sv_statter (h_servers h' ! srv) =
           bs_statter (h_stores h' ! sv_pathFn (h_servers h' ! srv))) \<and>
      (\<forall>repo2 ts1 h1 ts2 h2.
         repo_registry repo2 = repo_registry repo \<and>
         repository_Tags repo h = (ts1, h1) \<and> repository_Tags repo2 h1 = (ts2, h2) \<longrightarrow>
         ts_blobStore ts1 \<noteq> ts_blobStore ts2 \<and>
         bs_repositoryScope (h_stores h2 ! ts_blobStore ts1) = repo_name repo \<and>
         bs_repositoryScope (h_stores h2 ! ts_blobStore ts2) = repo_name repo2))"
proof (intro conjI impI)
  show "\<exists>reg h'. NewRegistry h drv [] = Inr (reg, h') \<and>
      globalBlobStore reg = length (h_stores h) \<and>
      globalStatter reg = length (h_statters h) \<and>
      globalBlobServer reg = length (h_servers h) \<and>
      bs_statter (h_stores h' ! globalBlobStore reg) = Statter (globalStatter reg) \<and>
      sv_statter (h_servers h' ! globalBlobServer reg) = Statter (globalStatter reg) \<and>
      sv_pathFn (h_servers h' ! globalBlobServer reg) = globalBlobStore reg"
    by (rule NewRegistry_globals)
next
  assume off: "\<not> repositoryBlobStoreEnabled (h_options h ! options (repo_registry repo))"
  show "repository_Tags repo h =
        (\<lparr>ts_repository = repo_name repo,
          ts_blobStore = globalBlobStore (repo_registry repo)\<rparr>, h)"
    using services_global(1) [OF off] .
  show "\<exists>ms. repository_Manifests repo [] h = (Inr ms, h) \<and>
         lbs_blobStore (mst_blobStore ms) = globalBlobStore (repo_registry repo)"
    using services_global(2) [OF off] .
  show "\<exists>bs. repository_Blobs repo h = (bs, h) \<and>
         lbs_blobStore bs = globalBlobStore (repo_registry repo) \<and>
         lbs_blobServer bs = Some (globalBlobServer (repo_registry repo))"
    using services_global(3) [OF off] .
next
  assume on: "repositoryBlobStoreEnabled (h_options h ! options (repo_registry repo))"
  show "\<exists>ts h'. repository_Tags repo h = (ts, h') \<and> heap_extends h h' \<and>
         fresh_scoped_store h h' (repo_name repo) (ts_blobStore ts)"
    using Tags_scoped [OF on] by blast
  show "\<exists>ms h'. repository_Manifests repo [] h = (Inr ms, h') \<and> heap_extends h h' \<and>
         fresh_scoped_store h h' (repo_name repo) (lbs_blobStore (mst_blobStore ms))"
    using Manifests_scoped [OF on] .
  show "\<exists>bs srv h'. repository_Blobs repo h = (bs, h') \<and> heap_extends h h' \<and>
         fresh_scoped_store h h' (repo_name repo) (lbs_blobStore bs) \<and>
         lbs_blobServer bs = Some srv \<and>
         length (h_servers h) \<le> srv \<and> srv < length (h_servers h') \<and>
         fresh_scoped_store h h' (repo_name repo) (sv_pathFn (h_servers h' ! srv)) \<and>
         sv_statter (h_servers h' ! srv) =
           bs_statter (h_stores h' ! sv_pathFn (h_servers h' ! srv))"
    using Blobs_scoped [OF on] .
  show "\<forall>repo2 ts1 h1 ts2 h2.
         repo_registry repo2 = repo_registry repo \<and>
         repository_Tags repo h = (ts1, h1) \<and> repository_Tags repo2 h1 = (ts2, h2) \<longrightarrow>
         ts_blobStore ts1 \<noteq> ts_blobStore ts2 \<and>
         bs_repositoryScope (h_stores h2 ! ts_blobStore ts1) = repo_name repo \<and>
         bs_repositoryScope (h_stores h2 ! ts_blobStore ts2) = repo_name repo2"
    using Tags_not_shared [OF on] by blast
qed

theorem scoped_stores_invariant_witness:
  "NewRegistry emptyHeap 0 [EnableRepositoryBlobsStorage] = Inr scopedSetup
   \<and> \<not> repositoryBlobStoreEnabled
         (h_options (snd globalSetup) ! options (repo_registry (appRepository (fst globalSetup))))
   \<and> repository_Tags (appRepository (fst globalSetup)) (snd globalSetup) =
       (\<lparr>ts_repository = ''app'', ts_blobStore = 0\<rparr>, snd globalSetup)
   \<and> repositoryBlobStoreEnabled
         (h_options (snd scopedSetup) ! options (repo_registry (appRepository (fst scopedSetup))))
   \<and> ts_blobStore (fst (repository_Tags (appRepository (fst scopedSetup)) (snd scopedSetup))) = 1
   \<and> ts_blobStore (fst (repository_Tags (otherRepository (fst scopedSetup))
         (snd (repository_Tags (appRepository (fst scopedSetup)) (snd scopedSetup))))) = 2
   \<and> map bs_repositoryScope (h_stores (snd (repository_Tags (otherRepository (fst scopedSetup))
         (snd (repository_Tags (appRepository (fst scopedSetup)) (snd scopedSetup))))))
       = ['''', ''app'', ''other'']
   \<and> fresh_scoped_store (snd scopedSetup)
         (snd (repository_Tags (appRepository (fst scopedSetup)) (snd scopedSetup))) ''app'' 1"
proof -
  have off: "\<not> repositoryBlobStoreEnabled
      (h_options (snd globalSetup) ! options (repo_registry (appRepository (fst globalSetup))))"
    by (simp add: globalSetup_def initialRegistry_def emptyHeap_def appRepository_def)
  have on: "repositoryBlobStoreEnabled
      (h_options (snd scopedSetup) ! options (repo_registry (appRepository (fst scopedSetup))))"
    by (simp add: scopedSetup_def globalSetup_def initialRegistry_def emptyHeap_def
        appRepository_def update_options_def)
  have new: "NewRegistry emptyHeap 0 [EnableRepositoryBlobsStorage] = Inr scopedSetup"
    by (simp add: NewRegistry_def EnableRepositoryBlobsStorage_def scopedSetup_def
        globalSetup_def)
  have t1: "repository_Tags (appRepository (fst scopedSetup)) (snd scopedSetup) =
      (\<lparr>ts_repository = ''app'', ts_blobStore = 1\<rparr>,
       (snd scopedSetup)
         \<lparr>h_statters := h_statters (snd scopedSetup) @
            [\<lparr>st_driver = 0, st_options = 0, st_repositoryScope = ''app''\<rparr>],
          h_stores := h_stores (snd scopedSetup) @
            [\<lparr>bs_driver = 0, bs_statter = Statter 1, bs_options = 0,
              bs_repositoryScope = ''app''\<rparr>]\<rparr>)"
    by (simp add: repository_Tags_def scoped_defs scopedSetup_def globalSetup_def
        initialRegistry_def emptyHeap_def appRepository_def update_options_def)
  have t2: "repository_Tags (otherRepository (fst scopedSetup))
      ((snd scopedSetup)
         \<lparr>h_statters := h_statters (snd scopedSetup) @
            [\<lparr>st_driver = 0, st_options = 0, st_repositoryScope = ''app''\<rparr>],
          h_stores := h_stores (snd scopedSetup) @
            [\<lparr>bs_driver = 0, bs_statter = Statter 1, bs_options = 0,
              bs_repositoryScope = ''app''\<rparr>]\<rparr>) =
      (\<lparr>ts_repository = ''other'', ts_blobStore = 2\<rparr>,
       (snd scopedSetup)
         \<lparr>h_statters := h_statters (snd scopedSetup) @
            [\<lparr>st_driver = 0, st_options = 0, st_repositoryScope = ''app''\<rparr>,
             \<lparr>st_driver = 0, st_options = 0, st_repositoryScope = ''other''\<rparr>],
          h_stores := h_stores (snd scopedSetup) @
            [\<lparr>bs_driver = 0, bs_statter = Statter 1, bs_options = 0,
              bs_repositoryScope = ''app''\<rparr>,
             \<lparr>bs_driver = 0, bs_statter = Statter 2, bs_options = 0,
              bs_repositoryScope = ''other''\<rparr>]\<rparr>)"
    by (simp add: repository_Tags_def scoped_defs scopedSetup_def globalSetup_def
        initialRegistry_def emptyHeap_def otherRepository_def update_options_def)
  have stores: "map bs_repositoryScope (h_stores (snd scopedSetup)) = ['''']"
    by (simp add: scopedSetup_def globalSetup_def initialRegistry_def emptyHeap_def
        update_options_def)
  have g: "globalBlobStore (repo_registry (appRepository (fst globalSetup))) = 0"
      "repo_name (appRepository (fst globalSetup)) = ''app''"
    by (simp_all add: globalSetup_def initialRegistry_def emptyHeap_def appRepository_def)
  from scoped_stores_invariant [of "snd globalSetup" 0 "appRepository (fst globalSetup)"] off g
  have tg: "repository_Tags (appRepository (fst globalSetup)) (snd globalSetup) =
       (\<lparr>ts_repository = ''app'', ts_blobStore = 0\<rparr>, snd globalSetup)"
    by simp
  from scoped_stores_invariant [of "snd scopedSetup" 0 "appRepository (fst scopedSetup)"] on
  have "\<exists>ts h'. repository_Tags (appRepository (fst scopedSetup)) (snd scopedSetup) = (ts, h') \<and>
      heap_extends (snd scopedSetup) h' \<and>
      fresh_scoped_store (snd scopedSetup) h' (repo_name (appRepository (fst scopedSetup)))
        (ts_blobStore ts)"
    by simp
  with t1 have fr: "fresh_scoped_store (snd scopedSetup)
      (snd (repository_Tags (appRepository (fst scopedSetup)) (snd scopedSetup))) ''app'' 1"
    by (simp add: appRepository_def)
  from off on new t1 t2 stores tg fr show ?thesis by simp
qed


end
